theory Spec2Isabelle
  imports Main
begin

section \<open>JavaScript values used by \<^verbatim>\<open>src/public/client.js\<close>\<close>

text \<open>
  The rover code works on strings, numbers and \<^verbatim>\<open>Date\<close> objects. A number that the
  code can produce here is an integer or \<^verbatim>\<open>NaN\<close>; it is an \<open>int option\<close> with
  \<open>None\<close> for \<^verbatim>\<open>NaN\<close>. A \<^verbatim>\<open>Date\<close> is its time value, the milliseconds since
  1970-01-01T00:00:00 UTC, or \<^verbatim>\<open>NaN\<close> for an Invalid Date. Strings are lists of
  8-bit code units.
\<close>

type_synonym jsnum = "int option"

type_synonym jsdate = "int option"

datatype js_error = TypeError | RangeError

subsection \<open>Numbers as strings\<close>

definition digitChar :: "nat \<Rightarrow> char" where
  "digitChar n = ''0123456789'' ! n"

fun natToString :: "nat \<Rightarrow> string" where
  "natToString n =
     (if n < 10 then [digitChar n] else natToString (n div 10) @ [digitChar (n mod 10)])"

declare natToString.simps [simp del]

text \<open>
  \<^verbatim>\<open>String(x)\<close>, and the conversion of \<^verbatim>\<open>x + "-"\<close>, for \<^verbatim>\<open>NaN\<close> or an integer (of
  the size of a year or an hour, which JavaScript prints in plain decimal digits).
\<close>

definition ToString :: "jsnum \<Rightarrow> string" where
  "ToString x =
     (case x of
        None \<Rightarrow> ''NaN''
      | Some i \<Rightarrow> (if i < 0 then CHR ''-'' # natToString (nat (- i)) else natToString (nat i)))"

subsection \<open>String methods\<close>

text \<open>\<^verbatim>\<open>s.padStart(n, pad)\<close>: the pad string is repeated and cut to the missing length.\<close>

definition padStart :: "nat \<Rightarrow> string \<Rightarrow> string \<Rightarrow> string" where
  "padStart n pad s =
     (if n \<le> length s \<or> pad = [] then s
      else take (n - length s) (concat (replicate (n - length s) pad)) @ s)"

text \<open>\<^verbatim>\<open>s.substring(a, b)\<close>: both ends are clamped to the length, and swapped when \<open>b < a\<close>.\<close>

definition substring :: "nat \<Rightarrow> nat \<Rightarrow> string \<Rightarrow> string" where
  "substring a b s = take (max a b - min a b) (drop (min a b) s)"

subsection \<open>\<^verbatim>\<open>parseInt\<close>\<close>

definition isDigit :: "char \<Rightarrow> bool" where
  "isDigit c = (c \<in> set ''0123456789'')"

text \<open>The value of a digit is its place in \<^verbatim>\<open>0123456789\<close>.\<close>

definition digitVal :: "char \<Rightarrow> nat" where
  "digitVal c = length (takeWhile (\<lambda>d. d \<noteq> c) ''0123456789'')"

definition isHexDigit :: "char \<Rightarrow> bool" where
  "isHexDigit c = (isDigit c \<or> c \<in> set ''abcdefABCDEF'')"

definition hexVal :: "char \<Rightarrow> nat" where
  "hexVal c =
     (if isDigit c then digitVal c
      else if c = CHR ''a'' \<or> c = CHR ''A'' then 10
      else if c = CHR ''b'' \<or> c = CHR ''B'' then 11
      else if c = CHR ''c'' \<or> c = CHR ''C'' then 12
      else if c = CHR ''d'' \<or> c = CHR ''D'' then 13
      else if c = CHR ''e'' \<or> c = CHR ''E'' then 14
      else 15)"

text \<open>
  White space and line terminators among the 8-bit code units: TAB, LF, VT, FF, CR,
  SP and NBSP.
\<close>

definition isWhiteSpace :: "char \<Rightarrow> bool" where
  "isWhiteSpace c = ((of_char c :: nat) \<in> {9, 10, 11, 12, 13, 32, 160})"

definition digitsValue :: "nat \<Rightarrow> (char \<Rightarrow> nat) \<Rightarrow> string \<Rightarrow> nat" where
  "digitsValue radix val ds = foldl (\<lambda>acc c. radix * acc + val c) 0 ds"

text \<open>
  \<^verbatim>\<open>parseInt(s)\<close> with no radix: leading white space is dropped, a sign is read, a
  \<^verbatim>\<open>0x\<close> prefix selects radix 16, and the longest prefix of digits is the value;
  with no digit the result is \<^verbatim>\<open>NaN\<close>. (The code calls it on two code units, far
  from the size where a double rounds.)
\<close>

definition parseInt :: "string \<Rightarrow> jsnum" where
  "parseInt s =
     (let t = dropWhile isWhiteSpace s;
          neg = (t \<noteq> [] \<and> hd t = CHR ''-'');
          u = (if t \<noteq> [] \<and> (hd t = CHR ''-'' \<or> hd t = CHR ''+'') then tl t else t);
          hex = (take 2 u = ''0x'' \<or> take 2 u = ''0X'');
          ds = (if hex then takeWhile isHexDigit (drop 2 u) else takeWhile isDigit u);
          v = (if hex then digitsValue 16 hexVal ds else digitsValue 10 digitVal ds)
      in if ds = [] then None else Some (if neg then - int v else int v))"

text \<open>\<^verbatim>\<open>x - 1\<close> on a number: \<^verbatim>\<open>NaN\<close> stays \<^verbatim>\<open>NaN\<close>.\<close>

definition minus1 :: "jsnum \<Rightarrow> jsnum" where
  "minus1 x = map_option (\<lambda>i. i - 1) x"

section \<open>The \<^verbatim>\<open>Date\<close> object\<close>

text \<open>
  The time arithmetic of ECMAScript (ECMA-262, "Time Values and Time Range" and the
  sections after it), under the names of the standard. The local time zone is a constant
  offset with no daylight saving: \<open>tz\<close> is the value of
  \<^verbatim>\<open>new Date().getTimezoneOffset() / 60\<close>, a whole number of hours, positive when local
  time is behind UTC. A zone whose offset is not a whole number of hours is outside the
  model.
\<close>

definition msPerDay :: int where "msPerDay = 86400000"

definition msPerHour :: int where "msPerHour = 3600000"

definition msPerMinute :: int where "msPerMinute = 60000"

definition msPerSecond :: int where "msPerSecond = 1000"

definition Day :: "int \<Rightarrow> int" where
  "Day t = t div msPerDay"

definition TimeWithinDay :: "int \<Rightarrow> int" where
  "TimeWithinDay t = t mod msPerDay"

definition DaysInYear :: "int \<Rightarrow> int" where
  "DaysInYear y =
     (if y mod 4 \<noteq> 0 then 365
      else if y mod 100 \<noteq> 0 then 366
      else if y mod 400 \<noteq> 0 then 365
      else 366)"

definition DayFromYear :: "int \<Rightarrow> int" where
  "DayFromYear y =
     365 * (y - 1970) + (y - 1969) div 4 - (y - 1901) div 100 + (y - 1601) div 400"

text \<open>
  The years grow by \<open>DaysInYear\<close> days each; the search for the year of a day ends for
  that reason.
\<close>

lemma div_step:
  fixes x k :: int
  assumes k: "0 < k"
  shows "(x + 1) div k = x div k + (if (x + 1) mod k = 0 then 1 else 0)"
proof -
  define q where "q = x div k"
  define r where "r = x mod k"
  have x: "x = k * q + r"
    by (simp add: q_def r_def)
  have r: "0 \<le> r" "r < k"
    using k by (simp_all add: r_def)
  show ?thesis
  proof (cases "r + 1 = k")
    case True
    then have eq: "x + 1 = k * (q + 1) + 0"
      using x by (simp add: algebra_simps)
    have "(x + 1) div k = q + 1"
      using eq k by (intro int_div_pos_eq) auto
    moreover have "(x + 1) mod k = 0"
      using eq k by (intro int_mod_pos_eq) auto
    ultimately show ?thesis
      by (simp add: q_def)
  next
    case False
    then have lt: "r + 1 < k"
      using r by simp
    have eq: "x + 1 = k * q + (r + 1)"
      using x by simp
    have "(x + 1) div k = q"
      using eq lt r by (intro int_div_pos_eq) auto
    moreover have "(x + 1) mod k = r + 1"
      using eq lt r by (intro int_mod_pos_eq) auto
    ultimately show ?thesis
      using r by (simp add: q_def)
  qed
qed

lemma mod_shift: "(y + k * c) mod k = y mod k" for y k c :: int
  by simp

lemma DayFromYear_step: "DayFromYear (y + 1) = DayFromYear y + DaysInYear y"
proof -
  have s4: "y - 1969 + 1 = y + 4 * (- 492)" and s100: "y - 1901 + 1 = y + 100 * (- 19)"
    and s400: "y - 1601 + 1 = y + 400 * (- 4)"
    by simp_all
  have m4: "(y - 1969 + 1) mod 4 = y mod 4"
    unfolding s4 by (rule mod_shift)
  have m100: "(y - 1901 + 1) mod 100 = y mod 100"
    unfolding s100 by (rule mod_shift)
  have m400: "(y - 1601 + 1) mod 400 = y mod 400"
    unfolding s400 by (rule mod_shift)
  have d4: "(y + 1 - 1969) div 4 = (y - 1969) div 4 + (if y mod 4 = 0 then 1 else 0)"
    using div_step [of 4 "y - 1969"] m4 by (simp add: algebra_simps)
  have d100: "(y + 1 - 1901) div 100 = (y - 1901) div 100 + (if y mod 100 = 0 then 1 else 0)"
    using div_step [of 100 "y - 1901"] m100 by (simp add: algebra_simps)
  have d400: "(y + 1 - 1601) div 400 = (y - 1601) div 400 + (if y mod 400 = 0 then 1 else 0)"
    using div_step [of 400 "y - 1601"] m400 by (simp add: algebra_simps)
  have i1: "y mod 400 = 0 \<Longrightarrow> y mod 100 = 0"
    using mod_mod_cancel [of 100 400 y] by simp
  have i2: "y mod 100 = 0 \<Longrightarrow> y mod 4 = 0"
    using mod_mod_cancel [of 4 100 y] by simp
  show ?thesis
    unfolding DayFromYear_def DaysInYear_def d4 d100 d400 using i1 i2 by auto
qed

lemma DaysInYear_cases: "DaysInYear y = 365 \<or> DaysInYear y = 366"
  by (simp add: DaysInYear_def)

lemma DayFromYear_less: "DayFromYear y < DayFromYear (y + 1)"
  using DaysInYear_cases [of y] by (auto simp: DayFromYear_step)

text \<open>
  \<^verbatim>\<open>YearFromTime(t)\<close> is the largest \<open>y\<close> with \<^verbatim>\<open>TimeFromYear(y) \<le> t\<close>. It is found
  from an estimate, by stepping down to a year that starts on or before the day and up
  while the next year does too (\<open>YearFromTime_bounds\<close> below).
\<close>

function yearDown :: "int \<Rightarrow> int \<Rightarrow> int" where
  "yearDown y d = (if d < DayFromYear y then yearDown (y - 1) d else y)"
  by pat_completeness auto
termination
proof (relation "measure (\<lambda>(y, d). nat (DayFromYear y - d))")
  show "wf (measure (\<lambda>(y, d). nat (DayFromYear y - d)))"
    by simp
next
  fix y d :: int
  assume lt: "d < DayFromYear y"
  have "DayFromYear (y - 1) < DayFromYear y"
    using DayFromYear_less [of "y - 1"] by simp
  with lt show "((y - 1, d), (y, d)) \<in> measure (\<lambda>(y, d). nat (DayFromYear y - d))"
    by simp
qed

function yearUp :: "int \<Rightarrow> int \<Rightarrow> int" where
  "yearUp y d = (if DayFromYear (y + 1) \<le> d then yearUp (y + 1) d else y)"
  by pat_completeness auto
termination
proof (relation "measure (\<lambda>(y, d). nat (d - DayFromYear y))")
  show "wf (measure (\<lambda>(y, d). nat (d - DayFromYear y)))"
    by simp
next
  fix y d :: int
  assume le: "DayFromYear (y + 1) \<le> d"
  with DayFromYear_less [of y]
  show "((y + 1, d), (y, d)) \<in> measure (\<lambda>(y, d). nat (d - DayFromYear y))"
    by simp
qed

declare yearDown.simps [simp del] yearUp.simps [simp del]

definition YearFromDay :: "int \<Rightarrow> int" where
  "YearFromDay d = yearUp (yearDown (1970 + d div 365) d) d"

definition YearFromTime :: "int \<Rightarrow> int" where
  "YearFromTime t = YearFromDay (Day t)"

definition InLeapYear :: "int \<Rightarrow> int" where
  "InLeapYear t = (if DaysInYear (YearFromTime t) = 366 then 1 else 0)"

definition DayWithinYear :: "int \<Rightarrow> int" where
  "DayWithinYear t = Day t - DayFromYear (YearFromTime t)"

definition MonthFromTime :: "int \<Rightarrow> int" where
  "MonthFromTime t =
     (let d = DayWithinYear t; leap = InLeapYear t
      in if d < 31 then 0
         else if d < 59 + leap then 1
         else if d < 90 + leap then 2
         else if d < 120 + leap then 3
         else if d < 151 + leap then 4
         else if d < 181 + leap then 5
         else if d < 212 + leap then 6
         else if d < 243 + leap then 7
         else if d < 273 + leap then 8
         else if d < 304 + leap then 9
         else if d < 334 + leap then 10
         else 11)"

definition DateFromTime :: "int \<Rightarrow> int" where
  "DateFromTime t =
     (let d = DayWithinYear t; leap = InLeapYear t; m = MonthFromTime t
      in if m = 0 then d + 1
         else if m = 1 then d - 30
         else if m = 2 then d - 58 - leap
         else if m = 3 then d - 89 - leap
         else if m = 4 then d - 119 - leap
         else if m = 5 then d - 150 - leap
         else if m = 6 then d - 180 - leap
         else if m = 7 then d - 211 - leap
         else if m = 8 then d - 242 - leap
         else if m = 9 then d - 272 - leap
         else if m = 10 then d - 303 - leap
         else d - 333 - leap)"

definition LocalTZA :: "int \<Rightarrow> int" where
  "LocalTZA tz = - (tz * msPerHour)"

definition LocalTime :: "int \<Rightarrow> int \<Rightarrow> int" where
  "LocalTime tz t = t + LocalTZA tz"

definition UTC :: "int \<Rightarrow> int \<Rightarrow> int" where
  "UTC tz t = t - LocalTZA tz"

definition MakeTime :: "int \<Rightarrow> int \<Rightarrow> int \<Rightarrow> int \<Rightarrow> int" where
  "MakeTime hour minute sec ms =
     hour * msPerHour + minute * msPerMinute + sec * msPerSecond + ms"

text \<open>The day within its year on which month \<open>mn\<close> (0 to 11) starts.\<close>

definition monthStart :: "int \<Rightarrow> int \<Rightarrow> int" where
  "monthStart mn leap =
     (if mn = 0 then 0
      else if mn = 1 then 31
      else if mn = 2 then 59 + leap
      else if mn = 3 then 90 + leap
      else if mn = 4 then 120 + leap
      else if mn = 5 then 151 + leap
      else if mn = 6 then 181 + leap
      else if mn = 7 then 212 + leap
      else if mn = 8 then 243 + leap
      else if mn = 9 then 273 + leap
      else if mn = 10 then 304 + leap
      else 334 + leap)"

text \<open>
  \<^verbatim>\<open>MakeDay(year, month, date)\<close>: the day number of the first of the month, found
  from the year \<open>ym\<close> and the month \<open>mn\<close>, plus \<open>date - 1\<close>.
\<close>

definition MakeDay :: "int \<Rightarrow> int \<Rightarrow> int \<Rightarrow> int" where
  "MakeDay year month date =
     (let ym = year + month div 12; mn = month mod 12
      in DayFromYear ym + monthStart mn (if DaysInYear ym = 366 then 1 else 0) + date - 1)"

definition MakeDate :: "int \<Rightarrow> int \<Rightarrow> int" where
  "MakeDate day time = day * msPerDay + time"

definition TimeClip :: "int \<Rightarrow> jsdate" where
  "TimeClip t = (if 8640000000000000 < \<bar>t\<bar> then None else Some t)"

subsection \<open>Methods of \<^verbatim>\<open>Date\<close>\<close>

definition getFullYear :: "int \<Rightarrow> jsdate \<Rightarrow> jsnum" where
  "getFullYear tz date = map_option (\<lambda>t. YearFromTime (LocalTime tz t)) date"

definition getMonth :: "int \<Rightarrow> jsdate \<Rightarrow> jsnum" where
  "getMonth tz date = map_option (\<lambda>t. MonthFromTime (LocalTime tz t)) date"

definition getDate :: "int \<Rightarrow> jsdate \<Rightarrow> jsnum" where
  "getDate tz date = map_option (\<lambda>t. DateFromTime (LocalTime tz t)) date"

text \<open>
  \<^verbatim>\<open>date.setDate(dt)\<close> stores and returns the new time value. The code uses the
  returned number only, so the model returns it.
\<close>

definition setDate :: "int \<Rightarrow> jsdate \<Rightarrow> jsnum \<Rightarrow> jsnum" where
  "setDate tz date dt =
     (case date of
        None \<Rightarrow> None
      | Some tv \<Rightarrow>
          (case dt of
             None \<Rightarrow> None
           | Some n \<Rightarrow>
               (let t = LocalTime tz tv;
                    newDate = MakeDate (MakeDay (YearFromTime t) (MonthFromTime t) n)
                                (TimeWithinDay t)
                in TimeClip (UTC tz newDate))))"

text \<open>\<^verbatim>\<open>new Date(value)\<close> for a number.\<close>

definition DateFromNumber :: "jsnum \<Rightarrow> jsdate" where
  "DateFromNumber v = (case v of None \<Rightarrow> None | Some t \<Rightarrow> TimeClip t)"

subsection \<open>\<^verbatim>\<open>new Date(string)\<close>\<close>

text \<open>
  The Date Time String Format of ECMA-262, for the one shape that
  \<^verbatim>\<open>getDateWithTimeString\<close> builds: a date (\<^verbatim>\<open>YYYY\<close>, \<^verbatim>\<open>YYYY-MM\<close> or \<^verbatim>\<open>YYYY-MM-DD\<close>, the
  year also as a sign and six digits), then \<^verbatim>\<open>T\<close> and \<^verbatim>\<open>HH:mm:ss\<close>, with no time
  zone, which means local time. Any other string is an Invalid Date here (what an engine
  accepts beyond the format is its own choice). A day up to 31 past the end of its month
  runs into the next month, as in V8.
\<close>

definition digitsN :: "nat \<Rightarrow> string \<Rightarrow> nat option" where
  "digitsN n s =
     (if length s = n \<and> list_all isDigit s then Some (digitsValue 10 digitVal s) else None)"

definition parseYear :: "string \<Rightarrow> (int \<times> string) option" where
  "parseYear s =
     (if s \<noteq> [] \<and> (hd s = CHR ''+'' \<or> hd s = CHR ''-'') then
        (case digitsN 6 (take 6 (tl s)) of
           None \<Rightarrow> None
         | Some y \<Rightarrow>
             (if hd s = CHR ''-'' then (if y = 0 then None else Some (- int y, drop 7 s))
              else Some (int y, drop 7 s)))
      else
        (case digitsN 4 (take 4 s) of
           None \<Rightarrow> None
         | Some y \<Rightarrow> Some (int y, drop 4 s)))"

text \<open>\<^verbatim>\<open>-MM\<close> or \<^verbatim>\<open>-DD\<close> at the front of a string, with the rest of the string.\<close>

definition parseDashTwo :: "string \<Rightarrow> (int \<times> string) option" where
  "parseDashTwo s =
     (if s \<noteq> [] \<and> hd s = CHR ''-'' then
        (case digitsN 2 (take 2 (tl s)) of
           None \<Rightarrow> None
         | Some v \<Rightarrow> Some (int v, drop 3 s))
      else None)"

definition parseDatePart :: "string \<Rightarrow> (int \<times> int \<times> int) option" where
  "parseDatePart s =
     (case parseYear s of
        None \<Rightarrow> None
      | Some (y, r1) \<Rightarrow>
          (if r1 = [] then Some (y, 1, 1)
           else
             (case parseDashTwo r1 of
                None \<Rightarrow> None
              | Some (m, r2) \<Rightarrow>
                  (if m < 1 \<or> 12 < m then None
                   else if r2 = [] then Some (y, m, 1)
                   else
                     (case parseDashTwo r2 of
                        None \<Rightarrow> None
                      | Some (d, r3) \<Rightarrow>
                          (if d < 1 \<or> 31 < d \<or> r3 \<noteq> [] then None
                           else Some (y, m, d)))))))"

definition parseTimePart :: "string \<Rightarrow> (int \<times> int \<times> int) option" where
  "parseTimePart s =
     (if length s = 8 \<and> s ! 2 = CHR '':'' \<and> s ! 5 = CHR '':'' then
        (case (digitsN 2 (take 2 s), digitsN 2 (take 2 (drop 3 s)), digitsN 2 (drop 6 s)) of
           (Some h, Some mi, Some sec) \<Rightarrow>
             (if 24 < h \<or> 59 < mi \<or> 59 < sec \<or> (h = 24 \<and> (mi \<noteq> 0 \<or> sec \<noteq> 0)) then None
              else Some (int h, int mi, int sec))
         | _ \<Rightarrow> None)
      else None)"

definition DateFromString :: "int \<Rightarrow> string \<Rightarrow> jsdate" where
  "DateFromString tz s =
     (let datePart = takeWhile (\<lambda>c. c \<noteq> CHR ''T'') s;
          rest = dropWhile (\<lambda>c. c \<noteq> CHR ''T'') s
      in if rest = [] then None
         else
           (case (parseDatePart datePart, parseTimePart (tl rest)) of
              (Some (y, m, d), Some (h, mi, sec)) \<Rightarrow>
                TimeClip (UTC tz (MakeDate (MakeDay y (m - 1) d) (MakeTime h mi sec 0)))
            | _ \<Rightarrow> None))"

section \<open>The date helpers of \<^verbatim>\<open>client.js\<close>\<close>

text \<open>
  Each helper takes the time zone offset \<open>tz\<close> (whole hours) that the code reads from
  \<^verbatim>\<open>new Date().getTimezoneOffset() / 60\<close>; \<open>apodStringToDate\<close> also takes \<open>now\<close>, the
  time value of the \<^verbatim>\<open>new Date()\<close> that it builds for an empty string.
\<close>

definition dateToStringConverter :: "int \<Rightarrow> jsdate \<Rightarrow> string" where
  "dateToStringConverter tz date =
     ToString (getFullYear tz date) @ ''-'' @
     padStart 2 ''0'' (ToString (map_option (\<lambda>m. m + 1) (getMonth tz date))) @ ''-'' @
     padStart 2 ''0'' (ToString (getDate tz date))"

definition apodDateToString :: "jsdate \<Rightarrow> (jsdate \<Rightarrow> string) \<Rightarrow> string" where
  "apodDateToString date cb = cb date"

definition getDateWithTimeString :: "int \<Rightarrow> string \<Rightarrow> string" where
  "getDateWithTimeString timeZoneOffset date =
     (if 0 < timeZoneOffset then
        date @ ''T'' @ padStart 2 ''0'' (ToString (Some timeZoneOffset)) @ '':00:00''
      else if timeZoneOffset < 0 then
        substring 0 8 date @
        padStart 2 ''0'' (ToString (minus1 (parseInt (substring 8 10 date)))) @
        ''T'' @
        padStart 2 ''0'' (ToString (Some (24 + timeZoneOffset))) @
        '':00:00''
      else date @ ''T00:00:00'')"

definition apodStringToDate :: "int \<Rightarrow> int \<Rightarrow> string \<Rightarrow> jsdate" where
  "apodStringToDate tz now date =
     DateFromString tz
       (getDateWithTimeString tz
          (if date \<noteq> [] then date
           else apodDateToString (Some now) (dateToStringConverter tz)))"

section \<open>The store and the rover manifest\<close>

record photo =
  sol :: nat
  earth_date :: string

record photo_manifest =
  name :: string
  photos :: "photo list"
  launch_date :: string
  landing_date :: string
  total_photos :: nat
  status :: string

record manifest =
  photo_manifest :: photo_manifest

record rover_info =
  name :: string
  minDate :: jsdate
  maxDate :: jsdate
  disabledDates :: "jsdate list"
  startDate :: jsdate
  launchDate :: string
  landingDate :: string
  totalPhotos :: nat
  completedDate :: jsdate
  status :: string

record rover_photos =
  reqDate :: string
  date :: string
  images :: "string list"

text \<open>
  \<^verbatim>\<open>store.js\<close> is not part of the sources: the menu, APOD and EPIC parts of the store
  are type parameters, and \<open>selectedRoverInfo\<close> is \<open>None\<close> until a manifest has been
  loaded.
\<close>

record rovers =
  selectedRover :: string
  selectedRoverInfo :: "rover_info option"
  photos :: rover_photos

record ('m, 'a, 'e) state =
  menu :: 'm
  apod :: 'a
  epic :: 'e
  rovers :: rovers

text \<open>
  \<^verbatim>\<open>Object.assign(store, newState)\<close>, for a \<open>newState\<close> with the four keys that every
  caller in the file passes.
\<close>

definition updateStore ::
  "('m, 'a, 'e) state \<Rightarrow> ('m, 'a, 'e) state \<Rightarrow> ('m, 'a, 'e) state" where
  "updateStore store newState =
     store\<lparr>menu := menu newState, apod := apod newState, epic := epic newState,
           rovers := rovers newState\<rparr>"

text \<open>
  \<^verbatim>\<open>updateAndRender\<close> updates the store and renders it into the page; the page is not
  part of the model, the result is the store.
\<close>

definition updateAndRender ::
  "('m, 'a, 'e) state \<Rightarrow> ('m, 'a, 'e) state \<Rightarrow> ('m, 'a, 'e) state" where
  "updateAndRender store newState = updateStore store newState"

section \<open>Arrays\<close>

text \<open>
  \<^verbatim>\<open>xs.slice(start)\<close>: a negative start counts from the end, and both are clamped to
  the array.
\<close>

definition slice :: "int \<Rightarrow> 'a list \<Rightarrow> 'a list" where
  "slice start xs =
     (let len = int (length xs);
          k = (if start < 0 then max (len + start) 0 else min start len)
      in drop (nat k) xs)"

text \<open>\<^verbatim>\<open>xs[0]\<close> is \<^verbatim>\<open>undefined\<close> (\<open>None\<close>) on an empty array.\<close>

definition at0 :: "'a list \<Rightarrow> 'a option" where
  "at0 xs = (case xs of [] \<Rightarrow> None | x # _ \<Rightarrow> Some x)"

text \<open>Reading a property of \<^verbatim>\<open>undefined\<close> throws a \<^verbatim>\<open>TypeError\<close>.\<close>

definition getProp :: "('a \<Rightarrow> 'b) \<Rightarrow> 'a option \<Rightarrow> js_error + 'b" where
  "getProp f x = (case x of None \<Rightarrow> Inl TypeError | Some v \<Rightarrow> Inr (f v))"

definition bindE :: "js_error + 'a \<Rightarrow> ('a \<Rightarrow> js_error + 'b) \<Rightarrow> js_error + 'b" where
  "bindE r f = (case r of Inl e \<Rightarrow> Inl e | Inr v \<Rightarrow> f v)"

fun mapE :: "('a \<Rightarrow> js_error + 'b) \<Rightarrow> 'a list \<Rightarrow> js_error + 'b list" where
  "mapE f [] = Inr []"
| "mapE f (x # xs) = bindE (f x) (\<lambda>y. bindE (mapE f xs) (\<lambda>ys. Inr (y # ys)))"

text \<open>
  \<^verbatim>\<open>Array(n).fill()\<close>: an array of \<open>n\<close> times \<^verbatim>\<open>undefined\<close>, or a \<^verbatim>\<open>RangeError\<close> when
  \<open>n\<close> is not an array length.
\<close>

definition ArrayFill :: "nat \<Rightarrow> js_error + unit list" where
  "ArrayFill n = (if n < 2 ^ 32 then Inr (replicate n ()) else Inl RangeError)"

definition arrayIncludes :: "'a list \<Rightarrow> 'a \<Rightarrow> bool" where
  "arrayIncludes xs x = (x \<in> set xs)"

section \<open>\<^verbatim>\<open>getRoverInfo\<close>\<close>

definition cutOff :: "string \<Rightarrow> int" where
  "cutOff = (\<lambda>name.
     if name = ''Curiosity'' then - 1 else if name = ''Spirit'' then - 17 else - 5)"

definition missingSols :: "photo list \<Rightarrow> js_error + nat list" where
  "missingSols = (\<lambda>photos.
     bindE (getProp sol (at0 (slice (- 1) photos))) (\<lambda>n.
     bindE (ArrayFill n) (\<lambda>arr.
     Inr (filter (\<lambda>sol. \<not> arrayIncludes (map photo.sol photos) sol)
            (map (\<lambda>(i, x). i) (enumerate 0 arr))))))"

text \<open>
  The callback of \<^verbatim>\<open>missingSols.map\<close>, in two parts: \<open>solToDate\<close> is its body once
  \<^verbatim>\<open>photos[0].earth_date\<close> has been read, \<open>disabledDate\<close> reads it first.
  \<^verbatim>\<open>Math.floor(sol / 37)\<close> on a sol below \<open>2 ^ 32\<close> is the integer quotient: the
  double quotient of two such integers is never rounded up to the next integer.
\<close>

definition solToDate :: "int \<Rightarrow> int \<Rightarrow> string \<Rightarrow> nat \<Rightarrow> jsdate" where
  "solToDate tz now first = (\<lambda>sol.
     let baseDate = apodStringToDate tz now first
     in DateFromNumber
          (setDate tz baseDate
             (map_option (\<lambda>d. d + int sol + int (sol div 37) + int (sol div 1493))
                (getDate tz baseDate))))"

definition disabledDate :: "int \<Rightarrow> int \<Rightarrow> photo list \<Rightarrow> nat \<Rightarrow> js_error + jsdate" where
  "disabledDate tz now = (\<lambda>photos sol.
     bindE (getProp earth_date (at0 photos)) (\<lambda>first. Inr (solToDate tz now first sol)))"

text \<open>The object literal stored as \<^verbatim>\<open>selectedRoverInfo\<close>, with the constants before it.\<close>

definition roverInfo :: "int \<Rightarrow> int \<Rightarrow> manifest \<Rightarrow> js_error + rover_info" where
  "roverInfo tz now manifest =
     (let name = photo_manifest.name (photo_manifest manifest);
          cutOff = cutOff name;
          photos = photo_manifest.photos (photo_manifest manifest)
      in bindE (missingSols photos) (\<lambda>missingSols.
         bindE (mapE (disabledDate tz now photos) missingSols) (\<lambda>disabledDates.
         bindE (getProp earth_date (at0 photos)) (\<lambda>first.
         bindE (getProp earth_date (at0 (slice cutOff photos))) (\<lambda>boundary.
         bindE (getProp earth_date (at0 (slice (- 1) photos))) (\<lambda>final.
         Inr \<lparr>rover_info.name = photo_manifest.name (photo_manifest manifest),
              minDate = apodStringToDate tz now first,
              maxDate = apodStringToDate tz now boundary,
              disabledDates = disabledDates,
              startDate = apodStringToDate tz now boundary,
              launchDate = launch_date (photo_manifest manifest),
              landingDate = landing_date (photo_manifest manifest),
              totalPhotos = total_photos (photo_manifest manifest),
              completedDate = apodStringToDate tz now final,
              status = photo_manifest.status (photo_manifest manifest)\<rparr>))))))"

text \<open>
  The callback that \<^verbatim>\<open>getRoverInfo\<close> gives to \<^verbatim>\<open>getRoverManifest(...).then\<close>, as a
  function of the store, of the state passed in and of the manifest received: it returns
  the store that \<^verbatim>\<open>updateAndRender\<close> leaves, or the error thrown.
\<close>

definition getRoverInfo ::
  "int \<Rightarrow> int \<Rightarrow> ('m, 'a, 'e) state \<Rightarrow> ('m, 'a, 'e) state \<Rightarrow> manifest
     \<Rightarrow> js_error + ('m, 'a, 'e) state" where
  "getRoverInfo tz now store state manifest =
     bindE (roverInfo tz now manifest) (\<lambda>info.
     bindE (getProp earth_date
              (at0 (slice (cutOff (photo_manifest.name (photo_manifest manifest)))
                      (photo_manifest.photos (photo_manifest manifest))))) (\<lambda>boundary.
     let newRover = (rovers state)
           \<lparr>selectedRover := selectedRover (rovers state),
            selectedRoverInfo := Some info,
            photos := \<lparr>reqDate = boundary, date = [], images = []\<rparr>\<rparr>
     in Inr (updateAndRender store
               \<lparr>menu = menu state, apod = apod state, epic = epic state,
                rovers = newRover\<rparr>)))"

subsection \<open>The callback on objects that are shared\<close>

text \<open>
  \<^verbatim>\<open>Object.assign(state.rovers, ...)\<close> writes into the object that \<^verbatim>\<open>state.rovers\<close> refers
  to, and \<^verbatim>\<open>Object.assign(store, newState)\<close> into the store; both objects are shared with
  the rest of the application. Here the objects live in a heap: a state object holds under
  \<^verbatim>\<open>rovers\<close> a reference to a rovers object, and every reference holds an object of its
  type. The store and the state passed in are two references, which may be the same.
\<close>

type_synonym ref = nat

record ('m, 'a, 'e) state_object =
  menuKey :: 'm
  apodKey :: 'a
  epicKey :: 'e
  roversKey :: ref

record ('m, 'a, 'e) heap =
  stateObjects :: "ref \<Rightarrow> ('m, 'a, 'e) state_object"
  roversObjects :: "ref \<Rightarrow> rovers"

definition updateStore_heap ::
  "('m, 'a, 'e) heap \<Rightarrow> ref \<Rightarrow> ('m, 'a, 'e) state_object \<Rightarrow> ('m, 'a, 'e) heap" where
  "updateStore_heap h store newState =
     h\<lparr>stateObjects := (stateObjects h)
         (store := (stateObjects h store)
            \<lparr>menuKey := menuKey newState, apodKey := apodKey newState,
             epicKey := epicKey newState, roversKey := roversKey newState\<rparr>)\<rparr>"

definition updateAndRender_heap ::
  "('m, 'a, 'e) heap \<Rightarrow> ref \<Rightarrow> ('m, 'a, 'e) state_object \<Rightarrow> ('m, 'a, 'e) heap" where
  "updateAndRender_heap h store newState = updateStore_heap h store newState"

text \<open>
  The callback of \<^verbatim>\<open>getRoverInfo\<close> on the heap \<open>h\<close>, for the references \<open>store\<close> and
  \<open>state\<close>: it returns the heap that it leaves, or the error thrown, which comes before
  any write. \<open>newRover\<close> is what \<^verbatim>\<open>Object.assign\<close> returns, its first argument.
\<close>

definition getRoverInfo_heap ::
  "int \<Rightarrow> int \<Rightarrow> ('m, 'a, 'e) heap \<Rightarrow> ref \<Rightarrow> ref \<Rightarrow> manifest
     \<Rightarrow> js_error + ('m, 'a, 'e) heap" where
  "getRoverInfo_heap tz now h store state manifest =
     bindE (roverInfo tz now manifest) (\<lambda>info.
     bindE (getProp earth_date
              (at0 (slice (cutOff (photo_manifest.name (photo_manifest manifest)))
                      (photo_manifest.photos (photo_manifest manifest))))) (\<lambda>boundary.
     let target = roversKey (stateObjects h state);
         h' = h\<lparr>roversObjects := (roversObjects h)
                (target := (roversObjects h target)
                   \<lparr>selectedRover := selectedRover (roversObjects h target),
                    selectedRoverInfo := Some info,
                    photos := \<lparr>reqDate = boundary, date = [], images = []\<rparr>\<rparr>)\<rparr>;
         newRover = target
     in Inr (updateAndRender_heap h' store
               \<lparr>menuKey = menuKey (stateObjects h' state),
                apodKey = apodKey (stateObjects h' state),
                epicKey = epicKey (stateObjects h' state),
                roversKey = newRover\<rparr>)))"

text \<open>The state that a reference stands for: its object, with the rovers object read.\<close>

definition stateOf :: "('m, 'a, 'e) heap \<Rightarrow> ref \<Rightarrow> ('m, 'a, 'e) state" where
  "stateOf h r =
     \<lparr>menu = menuKey (stateObjects h r), apod = apodKey (stateObjects h r),
      epic = epicKey (stateObjects h r),
      rovers = roversObjects h (roversKey (stateObjects h r))\<rparr>"

section \<open>Days and comparisons\<close>

text \<open>
  The days that the callback adds for a sol:
  \<^verbatim>\<open>sol + Math.floor(sol / 37) + Math.floor(sol / 1493)\<close>.
\<close>

definition solDays :: "nat \<Rightarrow> int" where
  "solDays s = int s + int (s div 37) + int (s div 1493)"

text \<open>
  \<^verbatim>\<open>a <= b\<close> on two \<^verbatim>\<open>Date\<close> objects compares their time values, and is false when
  one of them is an Invalid Date.
\<close>

definition dateLessEq :: "jsdate \<Rightarrow> jsdate \<Rightarrow> bool" where
  "dateLessEq a b = (case (a, b) of (Some x, Some y) \<Rightarrow> x \<le> y | _ \<Rightarrow> False)"

text \<open>
  The dates of the calendar, as strings: \<^verbatim>\<open>YYYY-MM-DD\<close> with a month from 01 to 12 and a
  day from 01 to the length of the month.
\<close>

definition DaysInMonth :: "int \<Rightarrow> int \<Rightarrow> int" where
  "DaysInMonth y m =
     (if m = 2 then (if DaysInYear y = 366 then 29 else 28)
      else if m = 4 \<or> m = 6 \<or> m = 9 \<or> m = 11 then 30
      else 31)"

definition yearOf :: "string \<Rightarrow> int" where
  "yearOf s = int (digitsValue 10 digitVal (take 4 s))"

definition monthOf :: "string \<Rightarrow> int" where
  "monthOf s = int (digitsValue 10 digitVal (take 2 (drop 5 s)))"

definition dayOf :: "string \<Rightarrow> int" where
  "dayOf s = int (digitsValue 10 digitVal (drop 8 s))"

definition isCalendarDate :: "string \<Rightarrow> bool" where
  "isCalendarDate s =
     (length s = 10 \<and> list_all isDigit (take 4 s) \<and> s ! 4 = CHR ''-'' \<and>
      list_all isDigit (take 2 (drop 5 s)) \<and> s ! 7 = CHR ''-'' \<and>
      list_all isDigit (drop 8 s) \<and>
      1 \<le> monthOf s \<and> monthOf s \<le> 12 \<and>
      1 \<le> dayOf s \<and> dayOf s \<le> DaysInMonth (yearOf s) (monthOf s))"

text \<open>The order of two such dates: by year, then month, then day.\<close>

definition earthDateLessEq :: "string \<Rightarrow> string \<Rightarrow> bool" where
  "earthDateLessEq s s' =
     (yearOf s < yearOf s' \<or>
      (yearOf s = yearOf s' \<and>
       (monthOf s < monthOf s' \<or> (monthOf s = monthOf s' \<and> dayOf s \<le> dayOf s'))))"

section \<open>Manifests and a heap used as examples\<close>

abbreviation photosOf :: "manifest \<Rightarrow> photo list" where
  "photosOf m \<equiv> photo_manifest.photos (photo_manifest m)"

abbreviation nameOf :: "manifest \<Rightarrow> string" where
  "nameOf m \<equiv> photo_manifest.name (photo_manifest m)"

definition exampleManifest :: "string \<Rightarrow> photo list \<Rightarrow> manifest" where
  "exampleManifest n ps =
     \<lparr>photo_manifest = \<lparr>photo_manifest.name = n, photos = ps, launch_date = ''2003-07-07'',
        landing_date = ''2004-01-25'', total_photos = 0, status = ''complete''\<rparr>\<rparr>"

definition opportunityTwo :: manifest where
  "opportunityTwo = exampleManifest ''Opportunity''
     [\<lparr>sol = 0, earth_date = ''2020-01-01''\<rparr>, \<lparr>sol = 2, earth_date = ''2020-01-03''\<rparr>]"

definition curiosityThree :: manifest where
  "curiosityThree = exampleManifest ''Curiosity''
     [\<lparr>sol = 0, earth_date = ''2012-08-06''\<rparr>, \<lparr>sol = 1, earth_date = ''2012-08-07''\<rparr>,
      \<lparr>sol = 2, earth_date = ''2012-08-08''\<rparr>]"

definition curiosityGap :: manifest where
  "curiosityGap = exampleManifest ''Curiosity''
     [\<lparr>sol = 0, earth_date = ''2012-08-06''\<rparr>, \<lparr>sol = 1, earth_date = ''2012-08-07''\<rparr>,
      \<lparr>sol = 3, earth_date = ''2012-08-09''\<rparr>]"

definition opportunityFromSolOne :: manifest where
  "opportunityFromSolOne = exampleManifest ''Opportunity''
     [\<lparr>sol = 1, earth_date = ''2004-01-26''\<rparr>, \<lparr>sol = 2, earth_date = ''2004-01-27''\<rparr>]"

definition curiosityNextDay :: manifest where
  "curiosityNextDay = exampleManifest ''Curiosity''
     [\<lparr>sol = 0, earth_date = ''2012-08-06''\<rparr>, \<lparr>sol = 2, earth_date = ''2012-08-07''\<rparr>]"

definition emptyDates :: manifest where
  "emptyDates = exampleManifest ''Curiosity'' [\<lparr>sol = 0, earth_date = ''''\<rparr>]"

definition curiosityMonthEnd :: manifest where
  "curiosityMonthEnd = exampleManifest ''Curiosity''
     [\<lparr>sol = 0, earth_date = ''2012-08-30''\<rparr>, \<lparr>sol = 1, earth_date = ''2012-08-31''\<rparr>,
      \<lparr>sol = 2, earth_date = ''2012-09-01''\<rparr>]"


section \<open>Arrays and the shape of the result\<close>

lemma at0_slice_neg:
  assumes "c < 0" "xs \<noteq> []"
  shows "at0 (slice c xs) = Some (xs ! nat (max (int (length xs) + c) 0))"
proof -
  define k where "k = nat (max (int (length xs) + c) 0)"
  have "0 < length xs"
    using assms by simp
  then have "k < length xs"
    using assms unfolding k_def by linarith
  then have "drop k xs = xs ! k # drop (Suc k) xs"
    by (simp add: Cons_nth_drop_Suc)
  then show ?thesis
    using assms by (simp add: slice_def at0_def k_def Let_def)
qed

lemma at0_slice_last: "xs \<noteq> [] \<Longrightarrow> at0 (slice (- 1) xs) = Some (last xs)"
  by (simp add: at0_slice_neg last_conv_nth nat_diff_distrib max_def) 

lemma at0_slice_Nil: "at0 (slice c []) = None"
  by (simp add: slice_def at0_def)

lemma at0_hd: "xs \<noteq> [] \<Longrightarrow> at0 xs = Some (hd xs)"
  by (cases xs) (simp_all add: at0_def)

lemma indices_ArrayFill: "map (\<lambda>(i, x). i) (enumerate 0 (replicate n ())) = [0..<n]"
  by (simp add: enumerate_eq_zip case_prod_unfold)

lemma missingSols_Nil: "missingSols [] = Inl TypeError"
  by (simp add: missingSols_def at0_slice_Nil getProp_def bindE_def)


lemma missingSols_Inr:
  "xs \<noteq> [] \<Longrightarrow> sol (last xs) < 2 ^ 32 \<Longrightarrow>
   missingSols xs = Inr (filter (\<lambda>s. s \<notin> sol ` set xs) [0..<sol (last xs)])"
  by (simp add: missingSols_def at0_slice_last getProp_def bindE_def ArrayFill_def
      indices_ArrayFill arrayIncludes_def)

lemma mapE_disabledDate:
  "xs \<noteq> [] \<Longrightarrow>
   mapE (disabledDate tz now xs) ss = Inr (map (solToDate tz now (earth_date (hd xs))) ss)"
  by (induction ss) (simp_all add: disabledDate_def at0_hd getProp_def bindE_def)

lemma cutOff_neg: "cutOff n < 0"
  by (simp add: cutOff_def)

lemma at0_slice_cutOff:
  "xs \<noteq> [] \<Longrightarrow>
   at0 (slice (cutOff n) xs) = Some (xs ! nat (max (int (length xs) + cutOff n) 0))"
  by (rule at0_slice_neg [OF cutOff_neg])

lemma roverInfo_Nil: "photosOf m = [] \<Longrightarrow> roverInfo tz now m = Inl TypeError"
  by (simp add: roverInfo_def missingSols_Nil bindE_def)


lemma roverInfo_Inr:
  assumes ne: "photosOf m \<noteq> []" and range: "sol (last (photosOf m)) < 2 ^ 32"
  shows "roverInfo tz now m =
    Inr \<lparr>rover_info.name = nameOf m,
         minDate = apodStringToDate tz now (earth_date (hd (photosOf m))),
         maxDate = apodStringToDate tz now (earth_date
           (photosOf m ! nat (max (int (length (photosOf m)) + cutOff (nameOf m)) 0))),
         disabledDates = map (solToDate tz now (earth_date (hd (photosOf m))))
           (filter (\<lambda>s. s \<notin> sol ` set (photosOf m)) [0..<sol (last (photosOf m))]),
         startDate = apodStringToDate tz now (earth_date
           (photosOf m ! nat (max (int (length (photosOf m)) + cutOff (nameOf m)) 0))),
         launchDate = launch_date (photo_manifest m),
         landingDate = landing_date (photo_manifest m),
         totalPhotos = total_photos (photo_manifest m),
         completedDate = apodStringToDate tz now (earth_date (last (photosOf m))),
         status = photo_manifest.status (photo_manifest m)\<rparr>"
  using ne range
  by (simp add: roverInfo_def missingSols_Inr mapE_disabledDate at0_hd at0_slice_last
      at0_slice_cutOff getProp_def bindE_def Let_def)

lemma getRoverInfo_Inr:
  assumes ne: "photosOf m \<noteq> []" and info: "roverInfo tz now m = Inr info"
  shows "getRoverInfo tz now store st m =
    Inr (store\<lparr>menu := menu st, apod := apod st, epic := epic st,
          rovers := (rovers st)\<lparr>selectedRoverInfo := Some info,
            photos := \<lparr>reqDate = earth_date
                (photosOf m ! nat (max (int (length (photosOf m)) + cutOff (nameOf m)) 0)),
              date = [], images = []\<rparr>\<rparr>\<rparr>)"
  using ne
  by (simp add: getRoverInfo_def info at0_slice_cutOff getProp_def bindE_def
      updateAndRender_def updateStore_def)

section \<open>Adding days to a date\<close>

text \<open>
  \<^verbatim>\<open>setDate(getDate() + n)\<close> moves a valid date by \<open>n\<close> days, within the range of time
  values.
\<close>

lemma MonthFromTime_range: "0 \<le> MonthFromTime t \<and> MonthFromTime t \<le> 11"
  by (simp add: MonthFromTime_def Let_def)

lemma DateFromTime_monthStart:
  "DateFromTime t = DayWithinYear t - monthStart (MonthFromTime t) (InLeapYear t) + 1"
  by (simp add: DateFromTime_def monthStart_def Let_def)

lemma MakeDay_of_fields:
  "MakeDay (YearFromTime t) (MonthFromTime t) (DateFromTime t + n) = Day t + n"
proof -
  have m: "MonthFromTime t div 12 = 0" "MonthFromTime t mod 12 = MonthFromTime t"
    using MonthFromTime_range [of t] by simp_all
  show ?thesis
    by (simp add: MakeDay_def m DateFromTime_monthStart InLeapYear_def DayWithinYear_def)
qed

lemma MakeDate_Day: "MakeDate (Day t + n) (TimeWithinDay t) = t + n * msPerDay"
  by (simp add: MakeDate_def Day_def TimeWithinDay_def algebra_simps)

lemma UTC_LocalTime: "UTC tz (LocalTime tz t + x) = t + x"
  by (simp add: UTC_def LocalTime_def)

lemma setDate_getDate:
  "setDate tz (Some tv) (map_option (\<lambda>d. d + n) (getDate tz (Some tv)))
     = TimeClip (tv + n * msPerDay)"
  by (simp add: setDate_def getDate_def MakeDay_of_fields MakeDate_Day UTC_LocalTime)

lemma DateFromNumber_TimeClip: "DateFromNumber (TimeClip x) = TimeClip x"
  by (simp add: DateFromNumber_def TimeClip_def)

lemma solToDate_Some:
  assumes "apodStringToDate tz now first = Some t"
  shows "solToDate tz now first s = TimeClip (t + solDays s * msPerDay)"
proof -
  have f: "(\<lambda>d. d + int s + int (s div 37) + int (s div 1493)) = (\<lambda>d. d + solDays s)"
    by (simp add: solDays_def fun_eq_iff)
  show ?thesis
    by (simp add: solToDate_def assms f setDate_getDate DateFromNumber_TimeClip)
qed


lemma solDays_strict_mono: "s1 < s2 \<Longrightarrow> solDays s1 < solDays s2"
proof -
  assume lt: "s1 < s2"
  then have "s1 div 37 \<le> s2 div 37" "s1 div 1493 \<le> s2 div 1493"
    by (simp_all add: div_le_mono)
  with lt show ?thesis
    by (simp add: solDays_def)
qed






text \<open>The example dates, five hours behind UTC.\<close>

lemma date_2012_08_06: "apodStringToDate 5 0 ''2012-08-06'' = Some 1344247200000"
  by code_simp

lemma date_2012_08_07: "apodStringToDate 5 0 ''2012-08-07'' = Some 1344333600000"
  by code_simp

lemma date_2012_08_08: "apodStringToDate 5 0 ''2012-08-08'' = Some 1344420000000"
  by code_simp

lemma date_2004_01_26: "apodStringToDate 5 0 ''2004-01-26'' = Some 1075111200000"
  by code_simp

section \<open>Digits\<close>

lemma isDigit_cases:
  "isDigit c \<longleftrightarrow> c = CHR ''0'' \<or> c = CHR ''1'' \<or> c = CHR ''2'' \<or> c = CHR ''3'' \<or> c = CHR ''4''
     \<or> c = CHR ''5'' \<or> c = CHR ''6'' \<or> c = CHR ''7'' \<or> c = CHR ''8'' \<or> c = CHR ''9''"
  by (simp add: isDigit_def)

lemma digitVal_less: "isDigit c \<Longrightarrow> digitVal c < 10"
  by (auto simp: isDigit_cases digitVal_def)

lemma digitChar_digitVal: "isDigit c \<Longrightarrow> digitChar (digitVal c) = c"
  by (auto simp: isDigit_cases digitVal_def digitChar_def)

lemma digitVal_zero: "isDigit c \<Longrightarrow> digitVal c = 0 \<longleftrightarrow> c = CHR ''0''"
  by (auto simp: isDigit_cases digitVal_def)

lemma isDigit_digitChar: "n < 10 \<Longrightarrow> isDigit (digitChar n)"
proof -
  assume "n < 10"
  then consider "n = 0" | "n = 1" | "n = 2" | "n = 3" | "n = 4" | "n = 5" | "n = 6" | "n = 7"
    | "n = 8" | "n = 9"
    by atomize_elim arith
  then show ?thesis
    by cases (simp_all add: digitChar_def isDigit_def)
qed

lemma digitVal_digitChar: "n < 10 \<Longrightarrow> digitVal (digitChar n) = n"
proof -
  assume "n < 10"
  then consider "n = 0" | "n = 1" | "n = 2" | "n = 3" | "n = 4" | "n = 5" | "n = 6" | "n = 7"
    | "n = 8" | "n = 9"
    by atomize_elim arith
  then show ?thesis
    by cases (simp_all add: digitChar_def digitVal_def)
qed

lemma natToString_digit: "n < 10 \<Longrightarrow> natToString n = [digitChar n]"
  by (simp add: natToString.simps)

lemma natToString_step:
  "0 < v \<Longrightarrow> k < 10 \<Longrightarrow> natToString (10 * v + k) = natToString v @ [digitChar k]"
  by (subst natToString.simps) simp

lemma digitsValue_snoc:
  "digitsValue r val (ds @ [c]) = r * digitsValue r val ds + val c"
  by (simp add: digitsValue_def)

text \<open>Printing the value of a numeral that has no leading zero gives the numeral back.\<close>

lemma natToString_digitsValue:
  assumes "ds \<noteq> []" "list_all isDigit ds" "hd ds \<noteq> CHR ''0''"
  shows "natToString (digitsValue 10 digitVal ds) = ds \<and> 0 < digitsValue 10 digitVal ds"
  using assms
proof (induction ds rule: rev_induct)
  case Nil
  then show ?case by simp
next
  case (snoc c ds)
  have c: "isDigit c"
    using snoc.prems by simp
  show ?case
  proof (cases "ds = []")
    case True
    then have "c \<noteq> CHR ''0''"
      using snoc.prems by simp
    then have "0 < digitVal c"
      using digitVal_zero [OF c] by simp
    then show ?thesis
      using True c by (simp add: digitsValue_def natToString_digit digitVal_less digitChar_digitVal)
  next
    case False
    then have ih: "natToString (digitsValue 10 digitVal ds) = ds" "0 < digitsValue 10 digitVal ds"
      using snoc by simp_all
    show ?thesis
      using ih c
      by (simp add: digitsValue_snoc natToString_step digitVal_less digitChar_digitVal)
  qed
qed

lemma padStart_two_digits:
  assumes e: "isDigit e" and f: "isDigit f"
  shows "padStart 2 ''0'' (natToString (digitsValue 10 digitVal [e, f])) = [e, f]"
proof (cases "e = CHR ''0''")
  case True
  then have "digitsValue 10 digitVal [e, f] = digitVal f"
    by (simp add: digitsValue_def digitVal_def)
  then show ?thesis
    using True f by (simp add: natToString_digit digitVal_less digitChar_digitVal padStart_def)
next
  case False
  then have "natToString (digitsValue 10 digitVal [e, f]) = [e, f]"
    using natToString_digitsValue [of "[e, f]"] e f by simp
  then show ?thesis
    by (simp add: padStart_def)
qed

lemma padStart_hours:
  assumes "0 \<le> tz" "tz \<le> 23"
  shows "padStart 2 ''0'' (ToString (Some tz))
      = [digitChar (nat tz div 10), digitChar (nat tz mod 10)]"
proof (cases "nat tz < 10")
  case True
  then show ?thesis
    using assms by (simp add: ToString_def natToString_digit padStart_def digitChar_def)
next
  case False
  then have "natToString (nat tz) = natToString (nat tz div 10) @ [digitChar (nat tz mod 10)]"
    by (subst natToString.simps) simp
  moreover have "nat tz div 10 < 10"
    using assms by simp
  ultimately show ?thesis
    using assms by (simp add: ToString_def natToString_digit padStart_def)
qed

section \<open>Dates of the calendar\<close>

lemma DayFromYear_mono: "y \<le> y' \<Longrightarrow> DayFromYear y \<le> DayFromYear y'"
proof -
  have "DayFromYear y \<le> DayFromYear (y + int n)" for n
  proof (induction n)
    case 0
    then show ?case by simp
  next
    case (Suc n)
    have "DayFromYear (y + int n) < DayFromYear (y + int n + 1)"
      by (rule DayFromYear_less)
    moreover have "y + int (Suc n) = y + int n + 1"
      by simp
    ultimately show ?case
      using Suc by (simp only:)
  qed
  from this [of "nat (y' - y)"] show "y \<le> y' \<Longrightarrow> DayFromYear y \<le> DayFromYear y'"
    by simp
qed

lemma yearUp_unique:
  assumes "z \<le> y" "DayFromYear y \<le> d" "d < DayFromYear (y + 1)"
  shows "yearUp z d = y"
  using assms
proof (induction "nat (y - z)" arbitrary: z)
  case 0
  then have "z = y"
    by simp
  then show ?case
    using "0.prems" by (subst yearUp.simps) simp
next
  case (Suc n)
  then have lt: "z + 1 \<le> y"
    by linarith
  then have "DayFromYear (z + 1) \<le> d"
    using DayFromYear_mono [of "z + 1" y] Suc.prems by simp
  then have "yearUp z d = yearUp (z + 1) d"
    by (subst yearUp.simps) simp
  moreover have "yearUp (z + 1) d = y"
    using Suc lt by (intro Suc.hyps) auto
  ultimately show ?case
    by simp
qed

lemma yearDown_unique:
  assumes "y \<le> z" "DayFromYear y \<le> d" "d < DayFromYear (y + 1)"
  shows "yearDown z d = y"
  using assms
proof (induction "nat (z - y)" arbitrary: z)
  case 0
  then have "z = y"
    by simp
  then show ?case
    using "0.prems" by (subst yearDown.simps) simp
next
  case (Suc n)
  then have lt: "y + 1 \<le> z"
    by linarith
  then have "d < DayFromYear z"
    using DayFromYear_mono [of "y + 1" z] Suc.prems by simp
  then have "yearDown z d = yearDown (z - 1) d"
    by (subst yearDown.simps) simp
  moreover have "yearDown (z - 1) d = y"
    using Suc lt by (intro Suc.hyps) auto
  ultimately show ?case
    by simp
qed

lemma yearDown_stay: "DayFromYear z \<le> d \<Longrightarrow> yearDown z d = z"
  by (subst yearDown.simps) simp

text \<open>The year that contains a day is the one that \<open>YearFromDay\<close> finds.\<close>

lemma YearFromDay_unique:
  assumes lo: "DayFromYear y \<le> d" and hi: "d < DayFromYear (y + 1)"
  shows "YearFromDay d = y"
proof (cases "y \<le> 1970 + d div 365")
  case True
  then have "yearDown (1970 + d div 365) d = y"
    using lo hi by (rule yearDown_unique)
  then show ?thesis
    using yearUp_unique [OF order_refl lo hi] by (simp add: YearFromDay_def)
next
  case False
  then have le: "1970 + d div 365 \<le> y"
    by simp
  then have "DayFromYear (1970 + d div 365) \<le> d"
    using DayFromYear_mono [OF le] lo by simp
  then have "yearDown (1970 + d div 365) d = 1970 + d div 365"
    by (rule yearDown_stay)
  then show ?thesis
    using yearUp_unique [OF le lo hi] by (simp add: YearFromDay_def)
qed

lemma yearDown_start: "DayFromYear (yearDown z d) \<le> d"
proof (induction z d rule: yearDown.induct)
  case (1 y d)
  then show ?case
    by (subst yearDown.simps) auto
qed

lemma yearUp_bounds:
  "DayFromYear z \<le> d \<Longrightarrow>
   DayFromYear (yearUp z d) \<le> d \<and> d < DayFromYear (yearUp z d + 1)"
proof (induction z d rule: yearUp.induct)
  case (1 y d)
  then show ?case
    by (subst (1 2) yearUp.simps) auto
qed

text \<open>\<open>YearFromTime\<close> is the year of the standard: the one in which the time lies.\<close>

lemma YearFromTime_bounds:
  "DayFromYear (YearFromTime t) \<le> Day t \<and> Day t < DayFromYear (YearFromTime t + 1)"
  unfolding YearFromTime_def YearFromDay_def
  by (rule yearUp_bounds) (rule yearDown_start)

lemma DayWithinYear_bounds:
  "0 \<le> DayWithinYear t \<and> DayWithinYear t < DaysInYear (YearFromTime t)"
  using YearFromTime_bounds [of t] by (simp add: DayWithinYear_def DayFromYear_step)

lemma month_cases:
  fixes m :: int
  assumes "1 \<le> m" "m \<le> 12"
  obtains "m = 1" | "m = 2" | "m = 3" | "m = 4" | "m = 5" | "m = 6" | "m = 7" | "m = 8"
    | "m = 9" | "m = 10" | "m = 11" | "m = 12"
  using assms by atomize_elim arith

lemma MakeDay_in_year:
  assumes m: "1 \<le> m" "m \<le> 12" and d: "1 \<le> d" "d \<le> DaysInMonth y m"
  shows "MakeDay y (m - 1) d
       = DayFromYear y + monthStart (m - 1) (if DaysInYear y = 366 then 1 else 0) + d - 1"
    and "DayFromYear y \<le> MakeDay y (m - 1) d"
    and "MakeDay y (m - 1) d < DayFromYear (y + 1)"
proof -
  have dm: "(m - 1) div 12 = 0" "(m - 1) mod 12 = m - 1"
    using m by simp_all
  show eq: "MakeDay y (m - 1) d
       = DayFromYear y + monthStart (m - 1) (if DaysInYear y = 366 then 1 else 0) + d - 1"
    by (simp add: MakeDay_def dm)
  have ms: "0 \<le> monthStart (m - 1) (if DaysInYear y = 366 then 1 else 0)"
    by (simp add: monthStart_def)
  show "DayFromYear y \<le> MakeDay y (m - 1) d"
    unfolding eq using ms d by simp
  show "MakeDay y (m - 1) d < DayFromYear (y + 1)"
    unfolding eq DayFromYear_step
    using m(1) m(2) d DaysInYear_cases [of y]
    by (cases m rule: month_cases) (auto simp: monthStart_def DaysInMonth_def)
qed

lemma Day_MakeDate: "0 \<le> ms \<Longrightarrow> ms < msPerDay \<Longrightarrow> Day (MakeDate day ms) = day"
  unfolding Day_def MakeDate_def by (rule int_div_pos_eq [of _ _ _ ms]) simp_all

text \<open>The local fields of a time made from a date of the calendar are that date.\<close>

lemma fields_of_MakeDate:
  assumes m: "1 \<le> m" "m \<le> 12" and d: "1 \<le> d" "d \<le> DaysInMonth y m"
    and ms: "0 \<le> ms" "ms < msPerDay"
  shows "YearFromTime (MakeDate (MakeDay y (m - 1) d) ms) = y"
    and "MonthFromTime (MakeDate (MakeDay y (m - 1) d) ms) = m - 1"
    and "DateFromTime (MakeDate (MakeDay y (m - 1) d) ms) = d"
proof -
  let ?t = "MakeDate (MakeDay y (m - 1) d) ms"
  let ?leap = "if DaysInYear y = 366 then 1 else 0 :: int"
  note md = MakeDay_in_year [OF m d]
  have day: "Day ?t = MakeDay y (m - 1) d"
    using ms by (rule Day_MakeDate)
  show year: "YearFromTime ?t = y"
    unfolding YearFromTime_def day using md(2) md(3) by (rule YearFromDay_unique)
  have leap: "InLeapYear ?t = ?leap"
    by (simp add: InLeapYear_def year)
  have "DayWithinYear ?t = MakeDay y (m - 1) d - DayFromYear y"
    by (simp only: DayWithinYear_def day year)
  then have dwy: "DayWithinYear ?t = monthStart (m - 1) ?leap + d - 1"
    by (simp only: md(1))
  show month: "MonthFromTime ?t = m - 1"
    unfolding MonthFromTime_def dwy leap Let_def
    using m(1) m(2) d DaysInYear_cases [of y]
    by (cases m rule: month_cases) (auto simp: monthStart_def DaysInMonth_def)
  show "DateFromTime ?t = d"
    unfolding DateFromTime_monthStart month leap dwy by simp
qed

lemma length_ten:
  assumes "length s = 10"
  obtains a b c d p e f q g h where "s = [a, b, c, d, p, e, f, q, g, h]"
proof -
  from assms have "\<exists>a b c d p e f q g h. s = [a, b, c, d, p, e, f, q, g, h]"
    by (auto simp: length_Suc_conv eval_nat_numeral)
  then show ?thesis
    using that by blast
qed

lemma isCalendarDate_shape:
  assumes "isCalendarDate s"
  obtains a b c d e f g h where
    "s = [a, b, c, d, CHR ''-'', e, f, CHR ''-'', g, h]"
    "isDigit a" "isDigit b" "isDigit c" "isDigit d" "isDigit e" "isDigit f" "isDigit g" "isDigit h"
    "yearOf s = int (digitsValue 10 digitVal [a, b, c, d])"
    "monthOf s = int (digitsValue 10 digitVal [e, f])"
    "dayOf s = int (digitsValue 10 digitVal [g, h])"
proof -
  from assms have len: "length s = 10"
    by (simp add: isCalendarDate_def)
  then obtain a b c d p e f q g h where s: "s = [a, b, c, d, p, e, f, q, g, h]"
    by (rule length_ten)
  have "isDigit a \<and> isDigit b \<and> isDigit c \<and> isDigit d \<and> p = CHR ''-'' \<and> isDigit e
      \<and> isDigit f \<and> q = CHR ''-'' \<and> isDigit g \<and> isDigit h"
    using assms unfolding s isCalendarDate_def by simp
  then show ?thesis
    using s by (intro that [of a b c d e f g h]) (simp_all add: yearOf_def monthOf_def dayOf_def)
qed

lemma isCalendarDate_fields:
  assumes "isCalendarDate s"
  shows "1 \<le> monthOf s" "monthOf s \<le> 12" "1 \<le> dayOf s"
    "dayOf s \<le> DaysInMonth (yearOf s) (monthOf s)"
  using assms by (simp_all add: isCalendarDate_def)

lemma isDigit_not_T: "isDigit c \<Longrightarrow> c \<noteq> CHR ''T''"
  by (auto simp: isDigit_cases)

lemma isDigit_not_sign: "isDigit c \<Longrightarrow> c \<noteq> CHR ''+'' \<and> c \<noteq> CHR ''-''"
  by (auto simp: isDigit_cases)

lemma getDateWithTimeString_behind:
  assumes "0 \<le> tz" "tz \<le> 23"
  shows "getDateWithTimeString tz s
      = s @ ''T'' @ [digitChar (nat tz div 10), digitChar (nat tz mod 10)] @ '':00:00''"
proof (cases "tz = 0")
  case True
  then show ?thesis
    by (simp add: getDateWithTimeString_def digitChar_def)
next
  case False
  then show ?thesis
    using assms by (simp add: getDateWithTimeString_def padStart_hours)
qed

lemma parseTimePart_hours:
  assumes "0 \<le> tz" "tz \<le> 23"
  shows "parseTimePart ([digitChar (nat tz div 10), digitChar (nat tz mod 10)] @ '':00:00'')
      = Some (tz, 0, 0)"
proof -
  have lt: "nat tz div 10 < 10" "nat tz mod 10 < 10"
    using assms by simp_all
  have v: "digitsValue 10 digitVal [digitChar (nat tz div 10), digitChar (nat tz mod 10)] = nat tz"
    using lt by (simp add: digitsValue_def digitVal_digitChar)
  have z: "digitsValue 10 digitVal ''00'' = 0" "isDigit CHR ''0''"
    by (simp_all add: digitsValue_def digitVal_def isDigit_def)
  show ?thesis
    using assms lt by (simp add: parseTimePart_def digitsN_def isDigit_digitChar v z)
qed

lemma parseDatePart_calendar:
  assumes dg: "isDigit a" "isDigit b" "isDigit c" "isDigit d" "isDigit e" "isDigit f"
      "isDigit g" "isDigit h"
    and m: "1 \<le> int (digitsValue 10 digitVal [e, f])" "int (digitsValue 10 digitVal [e, f]) \<le> 12"
    and d: "1 \<le> int (digitsValue 10 digitVal [g, h])" "int (digitsValue 10 digitVal [g, h]) \<le> 31"
  shows "parseDatePart [a, b, c, d, CHR ''-'', e, f, CHR ''-'', g, h]
      = Some (int (digitsValue 10 digitVal [a, b, c, d]), int (digitsValue 10 digitVal [e, f]),
          int (digitsValue 10 digitVal [g, h]))"
  using dg m d isDigit_not_sign [OF dg(1)]
  by (simp add: parseDatePart_def parseYear_def parseDashTwo_def digitsN_def)

lemma DaysInMonth_le: "DaysInMonth y m \<le> 31"
  by (simp add: DaysInMonth_def)

lemma digitsValue_four_bounds:
  assumes "isDigit a" "isDigit b" "isDigit c" "isDigit d"
  shows "digitsValue 10 digitVal [a, b, c, d] < 10000"
    and "1000 \<le> digitsValue 10 digitVal [a, b, c, d] \<Longrightarrow> a \<noteq> CHR ''0''"
proof -
  have v: "digitsValue 10 digitVal [a, b, c, d]
      = 1000 * digitVal a + 100 * digitVal b + 10 * digitVal c + digitVal d"
    by (simp add: digitsValue_def)
  show "digitsValue 10 digitVal [a, b, c, d] < 10000"
    unfolding v using assms [THEN digitVal_less] by linarith
  have z: "digitVal CHR ''0'' = 0"
    by (simp add: digitVal_def)
  show "1000 \<le> digitsValue 10 digitVal [a, b, c, d] \<Longrightarrow> a \<noteq> CHR ''0''"
    unfolding v using assms(2-4) [THEN digitVal_less] z by auto
qed

lemma DayFromYear_0: "DayFromYear 0 = - 719528"
  by (simp add: DayFromYear_def)

lemma DayFromYear_10000: "DayFromYear 10000 = 2932897"
  by (simp add: DayFromYear_def)

lemma padStart_two_places:
  assumes "n < 100"
  shows "padStart 2 ''0'' (natToString n) = [digitChar (n div 10), digitChar (n mod 10)]"
proof (cases "n < 10")
  case True
  then show ?thesis
    by (simp add: natToString_digit padStart_def digitChar_def)
next
  case False
  then have "natToString n = natToString (n div 10) @ [digitChar (n mod 10)]"
    by (subst natToString.simps) simp
  moreover have "n div 10 < 10"
    using assms by simp
  ultimately show ?thesis
    by (simp add: natToString_digit padStart_def)
qed

text \<open>
  \<^verbatim>\<open>new Date\<close> on a date of the calendar, \<^verbatim>\<open>T\<close> and a whole hour \<open>h\<close>: the local time
  \<open>h\<close> o'clock of that day, for a zone within a day of UTC.
\<close>

lemma DateFromString_calendar:
  assumes cal: "isCalendarDate s" and h: "0 \<le> h" "h \<le> 23" and tz: "- 24 \<le> tz" "tz \<le> 24"
  shows "DateFromString tz
           (s @ ''T'' @ [digitChar (nat h div 10), digitChar (nat h mod 10)] @ '':00:00'')
      = Some (MakeDate (MakeDay (yearOf s) (monthOf s - 1) (dayOf s)) (h * msPerHour)
              + tz * msPerHour)"
proof -
  from cal obtain a b c d e f g k where
    s: "s = [a, b, c, d, CHR ''-'', e, f, CHR ''-'', g, k]"
    and dg: "isDigit a" "isDigit b" "isDigit c" "isDigit d" "isDigit e" "isDigit f"
      "isDigit g" "isDigit k"
    and y: "yearOf s = int (digitsValue 10 digitVal [a, b, c, d])"
    and mo: "monthOf s = int (digitsValue 10 digitVal [e, f])"
    and da: "dayOf s = int (digitsValue 10 digitVal [g, k])"
    by (rule isCalendarDate_shape)
  note fl = isCalendarDate_fields [OF cal]
  let ?s = "[a, b, c, d, CHR ''-'', e, f, CHR ''-'', g, k]"
  let ?hh = "[digitChar (nat h div 10), digitChar (nat h mod 10)]"
  have d31: "dayOf s \<le> 31"
    using fl(4) DaysInMonth_le [of "yearOf s" "monthOf s"] by linarith
  have noT: "a \<noteq> CHR ''T''" "b \<noteq> CHR ''T''" "c \<noteq> CHR ''T''" "d \<noteq> CHR ''T''"
      "e \<noteq> CHR ''T''" "f \<noteq> CHR ''T''" "g \<noteq> CHR ''T''" "k \<noteq> CHR ''T''"
    using dg by (simp_all add: isDigit_not_T)
  have tw: "takeWhile (\<lambda>c. c \<noteq> CHR ''T'') (?s @ ''T'' @ ?hh @ '':00:00'') = ?s"
    using noT by simp
  have dw: "dropWhile (\<lambda>c. c \<noteq> CHR ''T'') (?s @ ''T'' @ ?hh @ '':00:00'')
      = ''T'' @ ?hh @ '':00:00''"
    using noT by simp
  have pd: "parseDatePart ?s = Some (yearOf s, monthOf s, dayOf s)"
    unfolding y mo da
    using fl(1) fl(2) fl(3) d31 unfolding mo da by (intro parseDatePart_calendar [OF dg])
  have parse: "DateFromString tz (?s @ ''T'' @ ?hh @ '':00:00'')
      = TimeClip (UTC tz (MakeDate (MakeDay (yearOf s) (monthOf s - 1) (dayOf s))
          (MakeTime h 0 0 0)))"
    unfolding DateFromString_def tw dw Let_def
    using pd parseTimePart_hours [OF h] by simp
  have yb: "0 \<le> yearOf s" "yearOf s < 10000"
    unfolding y using digitsValue_four_bounds(1) [OF dg(1-4)] by simp_all
  note md = MakeDay_in_year [OF fl]
  have lo: "- 719528 \<le> MakeDay (yearOf s) (monthOf s - 1) (dayOf s)"
    using DayFromYear_mono [OF yb(1)] md(2) by (simp add: DayFromYear_0)
  have "yearOf s + 1 \<le> 10000"
    using yb(2) by simp
  then have hi: "MakeDay (yearOf s) (monthOf s - 1) (dayOf s) < 2932897"
    using DayFromYear_mono [of "yearOf s + 1" 10000] md(3) by (simp add: DayFromYear_10000)
  have clip: "TimeClip (UTC tz (MakeDate (MakeDay (yearOf s) (monthOf s - 1) (dayOf s))
        (MakeTime h 0 0 0)))
      = Some (MakeDate (MakeDay (yearOf s) (monthOf s - 1) (dayOf s)) (h * msPerHour)
              + tz * msPerHour)"
    using lo hi h tz
    by (simp add: TimeClip_def UTC_def LocalTZA_def MakeDate_def MakeTime_def msPerDay_def
        msPerHour_def)
  show ?thesis
    using parse clip by (simp add: s [symmetric])
qed

text \<open>The string that \<open>dateToStringConverter\<close> makes from such a time is the date.\<close>

lemma dateToStringConverter_calendar:
  assumes cal: "isCalendarDate s" and year: "1000 \<le> yearOf s" and h: "0 \<le> h" "h \<le> 23"
  shows "dateToStringConverter tz
           (Some (MakeDate (MakeDay (yearOf s) (monthOf s - 1) (dayOf s)) (h * msPerHour)
                  + tz * msPerHour))
      = s"
proof -
  from cal obtain a b c d e f g k where
    s: "s = [a, b, c, d, CHR ''-'', e, f, CHR ''-'', g, k]"
    and dg: "isDigit a" "isDigit b" "isDigit c" "isDigit d" "isDigit e" "isDigit f"
      "isDigit g" "isDigit k"
    and y: "yearOf s = int (digitsValue 10 digitVal [a, b, c, d])"
    and mo: "monthOf s = int (digitsValue 10 digitVal [e, f])"
    and da: "dayOf s = int (digitsValue 10 digitVal [g, k])"
    by (rule isCalendarDate_shape)
  note fl = isCalendarDate_fields [OF cal]
  let ?t = "MakeDate (MakeDay (yearOf s) (monthOf s - 1) (dayOf s)) (h * msPerHour)"
  have local: "LocalTime tz (?t + tz * msPerHour) = ?t"
    by (simp add: LocalTime_def LocalTZA_def)
  have ms: "0 \<le> h * msPerHour" "h * msPerHour < msPerDay"
    using h by (simp_all add: msPerHour_def msPerDay_def)
  note fields = fields_of_MakeDate [OF fl ms]
  have a0: "a \<noteq> CHR ''0''"
    using year digitsValue_four_bounds(2) [OF dg(1-4)] by (simp add: y)
  have ys: "natToString (digitsValue 10 digitVal [a, b, c, d]) = [a, b, c, d]"
    using natToString_digitsValue [of "[a, b, c, d]"] dg a0 by simp
  have "dateToStringConverter tz (Some (?t + tz * msPerHour))
      = ToString (Some (yearOf s)) @ ''-'' @ padStart 2 ''0'' (ToString (Some (monthOf s))) @
        ''-'' @ padStart 2 ''0'' (ToString (Some (dayOf s)))"
    by (simp add: dateToStringConverter_def getFullYear_def getMonth_def getDate_def local fields)
  also have "\<dots> = [a, b, c, d, CHR ''-'', e, f, CHR ''-'', g, k]"
    unfolding y mo da
    by (simp add: ToString_def ys padStart_two_digits [OF dg(5) dg(6)]
        padStart_two_digits [OF dg(7) dg(8)])
  finally show ?thesis
    by (simp add: s [symmetric])
qed

text \<open>
  For a date of the calendar and local time at or behind UTC (an offset of 0 to 23 hours),
  \<open>apodStringToDate\<close> gives the time at \<open>tz\<close> o'clock of that local day.
\<close>

lemma apodStringToDate_behind:
  assumes cal: "isCalendarDate s" and tz: "0 \<le> tz" "tz \<le> 23"
  shows "apodStringToDate tz now s
      = Some (MakeDate (MakeDay (yearOf s) (monthOf s - 1) (dayOf s)) (tz * msPerHour)
              + tz * msPerHour)"
proof -
  have ne: "s \<noteq> []"
    using cal by (auto simp: isCalendarDate_def)
  have "apodStringToDate tz now s = DateFromString tz (getDateWithTimeString tz s)"
    using ne by (simp add: apodStringToDate_def)
  also have "\<dots> = DateFromString tz
      (s @ ''T'' @ [digitChar (nat tz div 10), digitChar (nat tz mod 10)] @ '':00:00'')"
    by (simp only: getDateWithTimeString_behind [OF tz])
  also have "\<dots> = Some (MakeDate (MakeDay (yearOf s) (monthOf s - 1) (dayOf s))
      (tz * msPerHour) + tz * msPerHour)"
    using tz by (intro DateFromString_calendar [OF cal]) simp_all
  finally show ?thesis .
qed

text \<open>
  So at or behind UTC the date that \<open>apodStringToDate\<close> makes converts back to the
  string, for a year of four digits that does not start with 0.
\<close>

lemma roundtrip_behind_utc:
  assumes cal: "isCalendarDate s" and year: "1000 \<le> yearOf s" and tz: "0 \<le> tz" "tz \<le> 23"
  shows "dateToStringConverter tz (apodStringToDate tz now s) = s"
  unfolding apodStringToDate_behind [OF cal tz]
  by (rule dateToStringConverter_calendar [OF cal year tz])

lemma isDigit_not_space: "isDigit c \<Longrightarrow> \<not> isWhiteSpace c"
  by (auto simp: isDigit_cases isWhiteSpace_def)

lemma isDigit_not_x: "isDigit c \<Longrightarrow> c \<noteq> CHR ''x'' \<and> c \<noteq> CHR ''X''"
  by (auto simp: isDigit_cases)

lemma parseInt_two_digits:
  assumes "isDigit g" "isDigit k"
  shows "parseInt [g, k] = Some (int (digitsValue 10 digitVal [g, k]))"
  using assms isDigit_not_space [OF assms(1)] isDigit_not_sign [OF assms(1)]
    isDigit_not_x [OF assms(2)]
  by (simp add: parseInt_def Let_def)

text \<open>
  Ahead of UTC (a negative offset) the string that \<open>getDateWithTimeString\<close> builds has the
  day before, with two digits, also when that is day 0.
\<close>

lemma getDateWithTimeString_ahead:
  assumes cal: "isCalendarDate s" and tz: "- 23 \<le> tz" "tz < 0"
  shows "getDateWithTimeString tz s
      = (take 8 s @ [digitChar (nat (dayOf s - 1) div 10), digitChar (nat (dayOf s - 1) mod 10)])
        @ ''T'' @ [digitChar (nat (24 + tz) div 10), digitChar (nat (24 + tz) mod 10)]
        @ '':00:00''"
proof -
  from cal obtain a b c d e f g k where
    s: "s = [a, b, c, d, CHR ''-'', e, f, CHR ''-'', g, k]"
    and dg: "isDigit a" "isDigit b" "isDigit c" "isDigit d" "isDigit e" "isDigit f"
      "isDigit g" "isDigit k"
    and da: "dayOf s = int (digitsValue 10 digitVal [g, k])"
    by (rule isCalendarDate_shape)
  note fl = isCalendarDate_fields [OF cal]
  have d31: "dayOf s \<le> 31"
    using fl(4) DaysInMonth_le [of "yearOf s" "monthOf s"] by linarith
  have sub: "substring 0 8 s = take 8 s" "substring 8 10 s = [g, k]"
    by (simp_all add: substring_def s)
  have day: "minus1 (parseInt [g, k]) = Some (dayOf s - 1)"
    by (simp add: parseInt_two_digits [OF dg(7) dg(8)] minus1_def da)
  have dd: "padStart 2 ''0'' (ToString (Some (dayOf s - 1)))
      = [digitChar (nat (dayOf s - 1) div 10), digitChar (nat (dayOf s - 1) mod 10)]"
    using fl(3) d31 by (simp add: ToString_def padStart_two_places)
  have hh: "padStart 2 ''0'' (ToString (Some (24 + tz)))
      = [digitChar (nat (24 + tz) div 10), digitChar (nat (24 + tz) mod 10)]"
    using tz by (intro padStart_hours) simp_all
  show ?thesis
    using tz by (simp add: getDateWithTimeString_def sub day dd hh)
qed

text \<open>
  So ahead of UTC the date that comes back is the day before, within the month; and the
  first of a month gives an Invalid Date.
\<close>

lemma previous_day_ahead_of_utc:
  assumes cal: "isCalendarDate s" and year: "1000 \<le> yearOf s" and day: "2 \<le> dayOf s"
    and tz: "- 23 \<le> tz" "tz < 0"
  shows "dateToStringConverter tz (apodStringToDate tz now s)
      = take 8 s @ [digitChar (nat (dayOf s - 1) div 10), digitChar (nat (dayOf s - 1) mod 10)]"
proof -
  from cal obtain a b c d e f g k where
    s: "s = [a, b, c, d, CHR ''-'', e, f, CHR ''-'', g, k]"
    and dg: "isDigit a" "isDigit b" "isDigit c" "isDigit d" "isDigit e" "isDigit f"
      "isDigit g" "isDigit k"
    and y: "yearOf s = int (digitsValue 10 digitVal [a, b, c, d])"
    and mo: "monthOf s = int (digitsValue 10 digitVal [e, f])"
    by (rule isCalendarDate_shape)
  note fl = isCalendarDate_fields [OF cal]
  define n where "n = nat (dayOf s - 1)"
  define s' where "s' = take 8 s @ [digitChar (n div 10), digitChar (n mod 10)]"
  have d31: "dayOf s \<le> 31"
    using fl(4) DaysInMonth_le [of "yearOf s" "monthOf s"] by linarith
  have n: "1 \<le> n" "n < 31" "int n = dayOf s - 1"
    using day d31 by (simp_all add: n_def)
  have lt: "n div 10 < 10" "n mod 10 < 10"
    using n by simp_all
  have s'_eq: "s' = [a, b, c, d, CHR ''-'', e, f, CHR ''-'', digitChar (n div 10),
      digitChar (n mod 10)]"
    by (simp add: s'_def s)
  have fy: "yearOf s' = yearOf s"
    unfolding y by (simp add: s'_eq yearOf_def)
  have fm: "monthOf s' = monthOf s"
    unfolding mo by (simp add: s'_eq monthOf_def)
  have "dayOf s' = int n"
    using lt by (simp add: s'_eq dayOf_def digitsValue_def digitVal_digitChar)
  then have fd: "dayOf s' = dayOf s - 1"
    using n(3) by simp
  note fields = fy fm fd
  have cal': "isCalendarDate s'"
    unfolding isCalendarDate_def fields
    using dg lt fl day by (simp add: s'_eq isDigit_digitChar)
  have h: "0 \<le> 24 + tz" "24 + tz \<le> 23" and z: "- 24 \<le> tz" "tz \<le> 24"
    using tz by simp_all
  have ne: "s \<noteq> []"
    using s by simp
  have "apodStringToDate tz now s = DateFromString tz (getDateWithTimeString tz s)"
    using ne by (simp add: apodStringToDate_def)
  also have "\<dots> = DateFromString tz (s' @ ''T'' @
          [digitChar (nat (24 + tz) div 10), digitChar (nat (24 + tz) mod 10)] @ '':00:00'')"
    by (simp only: getDateWithTimeString_ahead [OF cal tz] s'_def n_def)
  also have "\<dots> = Some (MakeDate (MakeDay (yearOf s') (monthOf s' - 1) (dayOf s'))
      ((24 + tz) * msPerHour) + tz * msPerHour)"
    by (rule DateFromString_calendar [OF cal' h z])
  finally have "dateToStringConverter tz (apodStringToDate tz now s) = s'"
    using dateToStringConverter_calendar [OF cal' _ h, of tz] year by (simp add: fields(1))
  then show ?thesis
    by (simp add: s'_def n_def)
qed

lemma first_of_month_ahead_of_utc:
  assumes cal: "isCalendarDate s" and day: "dayOf s = 1" and tz: "- 23 \<le> tz" "tz < 0"
  shows "apodStringToDate tz now s = None"
    and "dateToStringConverter tz (apodStringToDate tz now s) = ''NaN-NaN-NaN''"
proof -
  from cal obtain a b c d e f g k where
    s: "s = [a, b, c, d, CHR ''-'', e, f, CHR ''-'', g, k]"
    and dg: "isDigit a" "isDigit b" "isDigit c" "isDigit d" "isDigit e" "isDigit f"
      "isDigit g" "isDigit k"
    and mo: "monthOf s = int (digitsValue 10 digitVal [e, f])"
    by (rule isCalendarDate_shape)
  note fl = isCalendarDate_fields [OF cal]
  let ?s' = "[a, b, c, d, CHR ''-'', e, f, CHR ''-'', CHR ''0'', CHR ''0'']"
  let ?hh = "[digitChar (nat (24 + tz) div 10), digitChar (nat (24 + tz) mod 10)]"
  have str: "getDateWithTimeString tz s = ?s' @ ''T'' @ ?hh @ '':00:00''"
    unfolding getDateWithTimeString_ahead [OF cal tz] day by (simp add: s digitChar_def)
  have noT: "a \<noteq> CHR ''T''" "b \<noteq> CHR ''T''" "c \<noteq> CHR ''T''" "d \<noteq> CHR ''T''"
      "e \<noteq> CHR ''T''" "f \<noteq> CHR ''T''"
    using dg by (simp_all add: isDigit_not_T)
  have tw: "takeWhile (\<lambda>c. c \<noteq> CHR ''T'') (?s' @ ''T'' @ ?hh @ '':00:00'') = ?s'"
    using noT by simp
  have dw: "dropWhile (\<lambda>c. c \<noteq> CHR ''T'') (?s' @ ''T'' @ ?hh @ '':00:00'')
      = ''T'' @ ?hh @ '':00:00''"
    using noT by simp
  have z: "digitsValue 10 digitVal ''00'' = 0" "isDigit CHR ''0''"
    by (simp_all add: digitsValue_def digitVal_def isDigit_def)
  have pd: "parseDatePart ?s' = None"
    using dg isDigit_not_sign [OF dg(1)] fl(1) fl(2) unfolding mo
    by (simp add: parseDatePart_def parseYear_def parseDashTwo_def digitsN_def z)
  have ne: "s \<noteq> []"
    using s by simp
  have "apodStringToDate tz now s = DateFromString tz (getDateWithTimeString tz s)"
    using ne by (simp add: apodStringToDate_def)
  also have "\<dots> = DateFromString tz (?s' @ ''T'' @ ?hh @ '':00:00'')"
    by (simp only: str)
  also have "\<dots> = None"
    unfolding DateFromString_def tw dw pd Let_def by simp
  finally show none: "apodStringToDate tz now s = None" .
  show "dateToStringConverter tz (apodStringToDate tz now s) = ''NaN-NaN-NaN''"
    unfolding none
    by (simp add: dateToStringConverter_def getFullYear_def getMonth_def getDate_def
        ToString_def padStart_def)
qed

lemma monthStart_next:
  assumes "1 \<le> m" "m \<le> 11"
  shows "monthStart m (if DaysInYear y = 366 then 1 else 0)
       = monthStart (m - 1) (if DaysInYear y = 366 then 1 else 0) + DaysInMonth y m"
proof -
  have "m \<le> 12"
    using assms by simp
  with assms(1) show ?thesis
    using assms(2) by (cases m rule: month_cases) (simp_all add: monthStart_def DaysInMonth_def)
qed

lemma DaysInMonth_pos: "0 < DaysInMonth y m"
  by (simp add: DaysInMonth_def)

lemma monthStart_mono:
  assumes "0 \<le> m" "m \<le> m'" "m' \<le> 11"
  shows "monthStart m (if DaysInYear y = 366 then 1 else 0)
       \<le> monthStart m' (if DaysInYear y = 366 then 1 else 0)"
  using assms
proof (induction "nat (m' - m)" arbitrary: m')
  case 0
  then show ?case
    by simp
next
  case (Suc n)
  then have m': "1 \<le> m'" "m' \<le> 11" "m \<le> m' - 1"
    by linarith+
  have "monthStart m (if DaysInYear y = 366 then 1 else 0)
      \<le> monthStart (m' - 1) (if DaysInYear y = 366 then 1 else 0)"
    using Suc m' by (intro Suc.hyps) auto
  also have "\<dots> \<le> monthStart m' (if DaysInYear y = 366 then 1 else 0)"
    using monthStart_next [OF m'(1) m'(2), of y] DaysInMonth_pos [of y m'] by linarith
  finally show ?case .
qed

text \<open>Later dates of the calendar have later day numbers.\<close>

lemma MakeDay_mono:
  assumes m: "1 \<le> m" "m \<le> 12" and d: "1 \<le> d" "d \<le> DaysInMonth y m"
    and m': "1 \<le> m'" "m' \<le> 12" and d': "1 \<le> d'" "d' \<le> DaysInMonth y' m'"
    and le: "y < y' \<or> (y = y' \<and> (m < m' \<or> (m = m' \<and> d \<le> d')))"
  shows "MakeDay y (m - 1) d \<le> MakeDay y' (m' - 1) d'"
proof -
  note a = MakeDay_in_year [OF m d]
  note b = MakeDay_in_year [OF m' d']
  consider "y < y'" | "y = y'" "m < m'" | "y = y'" "m = m'" "d \<le> d'"
    using le by blast
  then show ?thesis
  proof cases
    case 1
    then have "DayFromYear (y + 1) \<le> DayFromYear y'"
      by (intro DayFromYear_mono) simp
    with a(3) b(2) show ?thesis
      by linarith
  next
    case 2
    have m11: "m \<le> 11"
      using 2 m' by simp
    have "monthStart (m - 1) (if DaysInYear y = 366 then 1 else 0) + DaysInMonth y m
        \<le> monthStart (m' - 1) (if DaysInYear y = 366 then 1 else 0)"
      using monthStart_next [OF m(1) m11, of y] monthStart_mono [of m "m' - 1" y] m 2 m'
      by simp
    then show ?thesis
      unfolding a(1) b(1) using 2(1) d d' by simp
  next
    case 3
    then show ?thesis
      unfolding a(1) b(1) by simp
  qed
qed

text \<open>At or behind UTC, later dates of the calendar give later times.\<close>

lemma apodStringToDate_mono:
  assumes cal: "isCalendarDate s" "isCalendarDate s'" and le: "earthDateLessEq s s'"
    and tz: "0 \<le> tz" "tz \<le> 23"
  shows "\<exists>t t'. apodStringToDate tz now s = Some t \<and> apodStringToDate tz now s' = Some t'
      \<and> t \<le> t'"
proof -
  have "MakeDay (yearOf s) (monthOf s - 1) (dayOf s)
      \<le> MakeDay (yearOf s') (monthOf s' - 1) (dayOf s')"
    using le unfolding earthDateLessEq_def
    by (intro MakeDay_mono isCalendarDate_fields [OF cal(1)] isCalendarDate_fields [OF cal(2)])
  then show ?thesis
    by (simp add: apodStringToDate_behind [OF cal(1) tz] apodStringToDate_behind [OF cal(2) tz]
        MakeDate_def msPerDay_def)
qed

text \<open>
  At or behind UTC, a manifest whose earth dates are dates of the calendar in ascending
  order gives valid dates in ascending order.
\<close>

lemma ascending_earth_dates_behind_utc:
  fixes ps :: "photo list"
  assumes cal: "\<forall>p \<in> set ps. isCalendarDate (earth_date p)"
    and asc: "sorted_wrt (\<lambda>p q. earthDateLessEq (earth_date p) (earth_date q)) ps"
    and tz: "0 \<le> tz" "tz \<le> 23"
  shows "\<exists>ts. map (\<lambda>p. apodStringToDate tz now (earth_date p)) ps = map Some ts \<and> sorted ts"
proof -
  define time :: "photo \<Rightarrow> int" where "time = (\<lambda>p. MakeDate
      (MakeDay (yearOf (earth_date p)) (monthOf (earth_date p) - 1) (dayOf (earth_date p)))
      (tz * msPerHour) + tz * msPerHour)"
  have val: "apodStringToDate tz now (earth_date p) = Some (time p)" if "p \<in> set ps" for p
    using that cal by (simp add: time_def apodStringToDate_behind [OF _ tz])
  then have dates: "map (\<lambda>p. apodStringToDate tz now (earth_date p)) ps = map Some (map time ps)"
    by simp
  have le: "time p \<le> time q"
    if "p \<in> set ps" "q \<in> set ps" "earthDateLessEq (earth_date p) (earth_date q)" for p q
  proof -
    from apodStringToDate_mono [OF _ _ that(3) tz, of now] that(1) that(2) cal
    obtain t t' where "apodStringToDate tz now (earth_date p) = Some t"
      "apodStringToDate tz now (earth_date q) = Some t'" "t \<le> t'"
      by blast
    then show ?thesis
      using val [OF that(1)] val [OF that(2)] by simp
  qed
  have "sorted_wrt (\<lambda>p q. time p \<le> time q) ps"
    using asc le by (rule sorted_wrt_mono_rel [rotated]) 
  then have "sorted (map time ps)"
    by (simp add: sorted_wrt_map)
  with dates show ?thesis
    by blast
qed

section \<open>The clock\<close>



lemma getRoverInfo_Inl:
  "roverInfo tz now m = Inl e \<Longrightarrow> getRoverInfo tz now store st m = Inl e"
  by (simp add: getRoverInfo_def bindE_def)

text \<open>
  Without an earth date, that is for the empty string, \<^verbatim>\<open>apodStringToDate\<close> takes the date
  of today: the lemmas above need a string that is not empty.
\<close>

lemma empty_earth_date_reads_clock:
  "minDate (projr (roverInfo 0 0 emptyDates)) = Some 0
   \<and> minDate (projr (roverInfo 0 86400000 emptyDates)) = Some 86400000"
proof -
  have ne: "photosOf emptyDates \<noteq> []"
    by (simp add: emptyDates_def exampleManifest_def)
  have range: "sol (last (photosOf emptyDates)) < 2 ^ 32"
    by (simp add: emptyDates_def exampleManifest_def)
  have hd: "earth_date (hd (photosOf emptyDates)) = []"
    by (simp add: emptyDates_def exampleManifest_def)
  have a: "apodStringToDate 0 0 [] = Some 0"
    by code_simp
  have b: "apodStringToDate 0 86400000 [] = Some 86400000"
    by code_simp
  show ?thesis
    by (simp add: roverInfo_Inr [OF ne range] hd a b)
qed


section \<open>Writes into shared objects\<close>

lemma assign_all_keys:
  fixes x s :: "('m, 'a, 'e) state_object"
  shows "x\<lparr>menuKey := menuKey s, apodKey := apodKey s, epicKey := epicKey s,
           roversKey := roversKey s\<rparr> = s"
  by (cases x, cases s) simp

lemma getRoverInfo_heap_Inl:
  "roverInfo tz now m = Inl e \<Longrightarrow> getRoverInfo_heap tz now h store st m = Inl e"
  by (simp add: getRoverInfo_heap_def bindE_def)

text \<open>
  When the result is there, the callback writes it and the new \<open>photos\<close> into the rovers
  object of the state passed in, and makes the store object equal to that state object.
\<close>

lemma getRoverInfo_heap_Inr:
  assumes ne: "photosOf m \<noteq> []" and info: "roverInfo tz now m = Inr info"
  shows "getRoverInfo_heap tz now h store st m =
    Inr (h\<lparr>roversObjects := (roversObjects h)
            (roversKey (stateObjects h st) := (roversObjects h (roversKey (stateObjects h st)))
               \<lparr>selectedRoverInfo := Some info,
                photos := \<lparr>reqDate = earth_date
                    (photosOf m ! nat (max (int (length (photosOf m)) + cutOff (nameOf m)) 0)),
                  date = [], images = []\<rparr>\<rparr>),
          stateObjects := (stateObjects h) (store := stateObjects h st)\<rparr>)"
  using ne
  by (simp add: getRoverInfo_heap_def info at0_slice_cutOff getProp_def bindE_def
      updateAndRender_heap_def updateStore_heap_def Let_def assign_all_keys)

text \<open>
  Read as states, the heap that the callback leaves is the store that \<open>getRoverInfo\<close>
  returns.
\<close>

lemma getRoverInfo_heap_value:
  "map_sum id (\<lambda>h'. stateOf h' store) (getRoverInfo_heap tz now h store st m)
     = getRoverInfo tz now (stateOf h store) (stateOf h st) m"
proof (cases "roverInfo tz now m")
  case (Inl e)
  then show ?thesis
    by (simp add: getRoverInfo_heap_Inl getRoverInfo_Inl)
next
  case (Inr info)
  then have ne: "photosOf m \<noteq> []"
    using roverInfo_Nil [of m tz now] by auto
  show ?thesis
    by (simp add: getRoverInfo_heap_Inr [OF ne Inr] getRoverInfo_Inr [OF ne Inr] stateOf_def)
qed

section \<open>The cutoff window\<close>

text \<open>
  When the photo sequence is longer than the cutoff (1 for \<^verbatim>\<open>Curiosity\<close>, 17 for
  \<^verbatim>\<open>Spirit\<close>, 5 for any other name), \<open>maxDate\<close> is the date that \<^verbatim>\<open>apodStringToDate\<close>
  makes from the earth date of the entry at index \<open>length - cutoff\<close>; for 20 entries that
  is index 19, 3 or 15. The last sol has to be an array length, as in every theorem about a
  result.
\<close>

lemma maxDate_from_cutoff_entry:
  assumes len: "nat (- cutOff (nameOf m)) < length (photosOf m)"
    and range: "sol (last (photosOf m)) < 2 ^ 32"
  shows "- cutOff (nameOf m) =
           (if nameOf m = ''Curiosity'' then 1 else if nameOf m = ''Spirit'' then 17 else 5)
       \<and> (\<exists>info. roverInfo tz now m = Inr info
            \<and> maxDate info = apodStringToDate tz now (earth_date
                 (photosOf m ! (length (photosOf m) - nat (- cutOff (nameOf m)))))
            \<and> (length (photosOf m) = 20 \<longrightarrow>
                 maxDate info = apodStringToDate tz now (earth_date
                   (photosOf m ! (if nameOf m = ''Curiosity'' then 19
                                  else if nameOf m = ''Spirit'' then 3 else 15)))))"
proof -
  have ne: "photosOf m \<noteq> []"
    using len by auto
  have idx: "nat (max (int (length (photosOf m)) + cutOff (nameOf m)) 0)
      = length (photosOf m) - nat (- cutOff (nameOf m))"
    using len cutOff_neg [of "nameOf m"] by linarith
  have c: "- cutOff (nameOf m) =
      (if nameOf m = ''Curiosity'' then 1 else if nameOf m = ''Spirit'' then 17 else 5)"
    by (simp add: cutOff_def)
  show ?thesis
    using c by (auto simp: roverInfo_Inr [OF ne range] idx)
qed

text \<open>
  At or behind UTC that date is the earth date of the entry: \<open>maxDate\<close> converts back to
  the string of the manifest.
\<close>

lemma maxDate_behind_utc:
  assumes len: "nat (- cutOff (nameOf m)) < length (photosOf m)"
    and range: "sol (last (photosOf m)) < 2 ^ 32"
    and entry: "earth_date (photosOf m ! (length (photosOf m) - nat (- cutOff (nameOf m)))) = e"
    and cal: "isCalendarDate e" and year: "1000 \<le> yearOf e"
    and tz: "0 \<le> tz" "tz \<le> 23"
  shows "\<exists>info. roverInfo tz now m = Inr info \<and> dateToStringConverter tz (maxDate info) = e"
  using maxDate_from_cutoff_entry [OF len range, of tz now]
  by (auto simp: entry roundtrip_behind_utc [OF cal year tz])

text \<open>
  Ahead of UTC it is the day before the earth date of the entry, for every entry that is
  not on the first of a month, and an Invalid Date for an entry on the first.
\<close>

lemma maxDate_ahead_of_utc:
  assumes len: "nat (- cutOff (nameOf m)) < length (photosOf m)"
    and range: "sol (last (photosOf m)) < 2 ^ 32"
    and entry: "earth_date (photosOf m ! (length (photosOf m) - nat (- cutOff (nameOf m)))) = e"
    and cal: "isCalendarDate e" and year: "1000 \<le> yearOf e" and day: "2 \<le> dayOf e"
    and tz: "- 23 \<le> tz" "tz < 0"
  shows "\<exists>info. roverInfo tz now m = Inr info
      \<and> dateToStringConverter tz (maxDate info)
          = take 8 e @ [digitChar (nat (dayOf e - 1) div 10), digitChar (nat (dayOf e - 1) mod 10)]"
  using maxDate_from_cutoff_entry [OF len range, of tz now]
  by (auto simp: entry previous_day_ahead_of_utc [OF cal year day tz])

lemma maxDate_first_of_month_ahead_of_utc:
  assumes len: "nat (- cutOff (nameOf m)) < length (photosOf m)"
    and range: "sol (last (photosOf m)) < 2 ^ 32"
    and entry: "earth_date (photosOf m ! (length (photosOf m) - nat (- cutOff (nameOf m)))) = e"
    and cal: "isCalendarDate e" and day: "dayOf e = 1"
    and tz: "- 23 \<le> tz" "tz < 0"
  shows "\<exists>info. roverInfo tz now m = Inr info \<and> maxDate info = None"
  using maxDate_from_cutoff_entry [OF len range, of tz now]
  by (auto simp: entry first_of_month_ahead_of_utc(1) [OF cal day tz])

lemma date_east_2012_08_08: "apodStringToDate (- 2) 0 ''2012-08-08'' = Some 1344369600000"
  by code_simp

lemma calendar_2012_08_08:
  "isCalendarDate ''2012-08-08'' \<and> yearOf ''2012-08-08'' = 2012 \<and> dayOf ''2012-08-08'' = 8"
  by code_simp

text \<open>
  C3, at an input where the code breaks it: the \<^verbatim>\<open>Curiosity\<close> manifest of three entries,
  two hours ahead of UTC (an offset of \<open>- 2\<close>). The cutoff is 1 and the sequence is longer,
  the entry at index \<open>length - cutoff\<close> has the earth date \<^verbatim>\<open>2012-08-08\<close>, and \<open>maxDate\<close> is
  22 o'clock local time of the day before, the date \<^verbatim>\<open>2012-08-07\<close>. The cutoff and the
  index are as C3 says (\<open>maxDate_from_cutoff_entry\<close>) and at or behind UTC so is the date
  (\<open>maxDate_behind_utc\<close>); the date is lost where \<^verbatim>\<open>getDateWithTimeString\<close> takes one from the
  day, the defect of C8.
\<close>

theorem maxDate_east_of_utc:
  "nat (- cutOff (nameOf curiosityThree)) < length (photosOf curiosityThree)
   \<and> earth_date (photosOf curiosityThree !
        (length (photosOf curiosityThree) - nat (- cutOff (nameOf curiosityThree))))
       = ''2012-08-08''
   \<and> \<not> isl (roverInfo (- 2) 0 curiosityThree)
   \<and> maxDate (projr (roverInfo (- 2) 0 curiosityThree)) = Some 1344369600000
   \<and> dateToStringConverter (- 2) (maxDate (projr (roverInfo (- 2) 0 curiosityThree)))
       = ''2012-08-07''"
proof -
  have len: "nat (- cutOff (nameOf curiosityThree)) < length (photosOf curiosityThree)"
    by (simp add: curiosityThree_def exampleManifest_def cutOff_def)
  have range: "sol (last (photosOf curiosityThree)) < 2 ^ 32"
    by (simp add: curiosityThree_def exampleManifest_def)
  have entry: "earth_date (photosOf curiosityThree !
        (length (photosOf curiosityThree) - nat (- cutOff (nameOf curiosityThree))))
       = ''2012-08-08''"
    by (simp add: curiosityThree_def exampleManifest_def cutOff_def)
  from maxDate_from_cutoff_entry [OF len range, of "- 2" 0]
  obtain info where info: "roverInfo (- 2) 0 curiosityThree = Inr info"
    and max: "maxDate info = apodStringToDate (- 2) 0 ''2012-08-08''"
    unfolding entry by blast
  from maxDate_ahead_of_utc [OF len range entry, of "- 2" 0] calendar_2012_08_08
  have str: "dateToStringConverter (- 2) (maxDate info) = ''2012-08-07''"
    by (simp add: info digitChar_def)
  show ?thesis
    using len entry str by (simp add: info max date_east_2012_08_08)
qed



section \<open>Failures\<close>

text \<open>
  Against C2: the two-entry \<^verbatim>\<open>Opportunity\<close> manifest is shorter than its cutoff of 5
  and the computation returns a result.
\<close>

theorem short_manifest_no_error:
  "length (photosOf opportunityTwo) \<le> nat (- cutOff (nameOf opportunityTwo))
   \<and> \<not> isl (roverInfo 0 0 opportunityTwo)"
proof -
  have ne: "photosOf opportunityTwo \<noteq> []"
    by (simp add: opportunityTwo_def exampleManifest_def)
  have range: "sol (last (photosOf opportunityTwo)) < 2 ^ 32"
    by (simp add: opportunityTwo_def exampleManifest_def)
  show ?thesis
    by (simp add: roverInfo_Inr [OF ne range])
      (simp add: opportunityTwo_def exampleManifest_def cutOff_def)
qed

text \<open>
  C2 as amended: with an empty photo sequence the computation fails, with a
  \<^verbatim>\<open>TypeError\<close>; with a non-empty one whose last sol is an array length it returns a
  result, whatever the length.
\<close>

theorem roverInfo_fails_only_on_empty:
  "(photosOf m = [] \<longrightarrow> roverInfo tz now m = Inl TypeError)
   \<and> (photosOf m \<noteq> [] \<longrightarrow> sol (last (photosOf m)) < 2 ^ 32 \<longrightarrow> \<not> isl (roverInfo tz now m))"
  by (simp add: roverInfo_Nil roverInfo_Inr)

text \<open>Witness of C2 as amended: an empty manifest and the two-entry one.\<close>

theorem roverInfo_fails_only_on_empty_witness:
  "photosOf (exampleManifest ''Opportunity'' []) = []
   \<and> roverInfo 0 0 (exampleManifest ''Opportunity'' []) = Inl TypeError
   \<and> photosOf opportunityTwo \<noteq> [] \<and> sol (last (photosOf opportunityTwo)) < 2 ^ 32
   \<and> \<not> isl (roverInfo 0 0 opportunityTwo)"
  using roverInfo_fails_only_on_empty [of "exampleManifest ''Opportunity'' []" 0 0]
    roverInfo_fails_only_on_empty [of opportunityTwo 0 0]
  by (simp add: opportunityTwo_def exampleManifest_def)

section \<open>Missing sols\<close>

text \<open>
  C6: when every sol from 0 to the last recorded sol is present, \<open>disabledDates\<close> is
  empty; the missing sols that the code finds are the sols of that inclusive range which
  no entry has.
\<close>

theorem full_manifest_no_disabledDates:
  assumes ne: "photosOf m \<noteq> []"
    and range: "sol (last (photosOf m)) < 2 ^ 32"
    and full: "\<forall>s \<le> sol (last (photosOf m)). s \<in> sol ` set (photosOf m)"
  shows "\<exists>info ms. roverInfo tz now m = Inr info \<and> disabledDates info = []
      \<and> missingSols (photosOf m) = Inr ms
      \<and> set ms = {s. s \<le> sol (last (photosOf m)) \<and> s \<notin> sol ` set (photosOf m)}
      \<and> ms = []"
proof -
  have last_in: "sol (last (photosOf m)) \<in> sol ` set (photosOf m)"
    using ne by simp
  have set_eq: "set (filter (\<lambda>s. s \<notin> sol ` set (photosOf m)) [0..<sol (last (photosOf m))])
      = {s. s \<le> sol (last (photosOf m)) \<and> s \<notin> sol ` set (photosOf m)}"
    using last_in by (auto simp: le_less)
  have empty: "filter (\<lambda>s. s \<notin> sol ` set (photosOf m)) [0..<sol (last (photosOf m))] = []"
    using full by (simp add: filter_empty_conv)
  show ?thesis
    using set_eq empty by (simp add: roverInfo_Inr [OF ne range] missingSols_Inr [OF ne range])
qed

text \<open>Witness of C6: sols 0, 1 and 2 of a \<^verbatim>\<open>Curiosity\<close> manifest.\<close>

theorem full_manifest_no_disabledDates_witness:
  "photosOf curiosityThree \<noteq> [] \<and> sol (last (photosOf curiosityThree)) = 2
   \<and> sol ` set (photosOf curiosityThree) = {0, 1, 2}
   \<and> (\<exists>info. roverInfo 0 0 curiosityThree = Inr info \<and> disabledDates info = [])"
proof -
  have ne: "photosOf curiosityThree \<noteq> []"
    by (simp add: curiosityThree_def exampleManifest_def)
  have range: "sol (last (photosOf curiosityThree)) < 2 ^ 32"
    by (simp add: curiosityThree_def exampleManifest_def)
  have sols: "sol ` set (photosOf curiosityThree) = {0, 1, 2}"
    by (auto simp: curiosityThree_def exampleManifest_def)
  have last: "sol (last (photosOf curiosityThree)) = 2"
    by (simp add: curiosityThree_def exampleManifest_def)
  have full: "\<forall>s \<le> sol (last (photosOf curiosityThree)). s \<in> sol ` set (photosOf curiosityThree)"
    unfolding sols last by (auto simp: le_Suc_eq numeral_2_eq_2)
  show ?thesis
    using ne sols last full_manifest_no_disabledDates [OF ne range full, of 0 0]
    by blast
qed





section \<open>The range of dates\<close>

text \<open>
  When the earth dates of a non-empty manifest give valid dates in ascending order,
  \<open>minDate \<le> startDate \<le> maxDate \<le> completedDate\<close>, and \<open>startDate\<close> equals
  \<open>maxDate\<close>.
\<close>

lemma date_range_ordered:
  assumes ne: "photosOf m \<noteq> []"
    and range: "sol (last (photosOf m)) < 2 ^ 32"
    and dates: "map (\<lambda>p. apodStringToDate tz now (earth_date p)) (photosOf m) = map Some ts"
    and asc: "sorted ts"
  shows "\<exists>info. roverInfo tz now m = Inr info
      \<and> dateLessEq (minDate info) (startDate info)
      \<and> dateLessEq (startDate info) (maxDate info)
      \<and> dateLessEq (maxDate info) (completedDate info)
      \<and> startDate info = maxDate info"
proof -
  let ?ps = "photosOf m"
  let ?i = "nat (max (int (length ?ps) + cutOff (nameOf m)) 0)"
  have len: "length ts = length ?ps"
    using dates by (metis length_map)
  have nth: "apodStringToDate tz now (earth_date (?ps ! i)) = Some (ts ! i)" if "i < length ?ps" for i
  proof -
    have "map (\<lambda>p. apodStringToDate tz now (earth_date p)) ?ps ! i = map Some ts ! i"
      using dates by simp
    then show ?thesis
      using that len by simp
  qed
  have pos: "0 < length ?ps"
    using ne by simp
  have i: "?i < length ?ps"
    using pos cutOff_neg [of "nameOf m"] by linarith
  have hd: "hd ?ps = ?ps ! 0" and last: "last ?ps = ?ps ! (length ?ps - 1)"
    using ne by (simp_all add: hd_conv_nth last_conv_nth)
  have le1: "ts ! 0 \<le> ts ! ?i"
    using asc i len by (simp add: sorted_nth_mono)
  have le2: "ts ! ?i \<le> ts ! (length ?ps - 1)"
    using asc i len pos by (intro sorted_nth_mono) auto
  show ?thesis
    using le1 le2 pos
    by (simp add: roverInfo_Inr [OF ne range] hd last nth [OF i] nth dateLessEq_def)
qed

text \<open>
  At or behind UTC that is so for every manifest whose earth dates are dates of the
  calendar in ascending order.
\<close>

lemma date_range_behind_utc:
  assumes ne: "photosOf m \<noteq> []"
    and range: "sol (last (photosOf m)) < 2 ^ 32"
    and cal: "\<forall>p \<in> set (photosOf m). isCalendarDate (earth_date p)"
    and asc: "sorted_wrt (\<lambda>p q. earthDateLessEq (earth_date p) (earth_date q)) (photosOf m)"
    and tz: "0 \<le> tz" "tz \<le> 23"
  shows "\<exists>info. roverInfo tz now m = Inr info
      \<and> dateLessEq (minDate info) (startDate info)
      \<and> dateLessEq (startDate info) (maxDate info)
      \<and> dateLessEq (maxDate info) (completedDate info)
      \<and> startDate info = maxDate info"
proof -
  from ascending_earth_dates_behind_utc [OF cal asc tz, of now]
  obtain ts where "map (\<lambda>p. apodStringToDate tz now (earth_date p)) (photosOf m) = map Some ts"
    and "sorted ts"
    by blast
  then show ?thesis
    by (rule date_range_ordered [OF ne range])
qed

lemma date_east_2012_08_30: "apodStringToDate (- 2) 0 ''2012-08-30'' = Some 1346270400000"
  by code_simp

lemma calendar_month_end:
  "isCalendarDate ''2012-08-30'' \<and> isCalendarDate ''2012-08-31''
   \<and> isCalendarDate ''2012-09-01'' \<and> dayOf ''2012-09-01'' = 1"
  by code_simp

lemma ascending_month_end:
  "earthDateLessEq ''2012-08-30'' ''2012-08-31'' \<and> earthDateLessEq ''2012-08-31'' ''2012-09-01''
   \<and> earthDateLessEq ''2012-08-30'' ''2012-09-01''"
  by code_simp

text \<open>
  C5, at an input where the code breaks it: sols 0, 1 and 2 of \<^verbatim>\<open>Curiosity\<close> on the last
  two days of August and the first of September, two hours ahead of UTC (an offset of
  \<open>- 2\<close>). The entries ascend by sol and by earth date, \<open>minDate\<close> is a valid date, and
  \<open>startDate\<close>, \<open>maxDate\<close> and \<open>completedDate\<close> are Invalid Dates, made from the day
  \<^verbatim>\<open>00\<close> of September; no comparison with them holds, so \<open>minDate \<le> startDate\<close> fails.
  At or behind UTC the order holds for every such manifest (\<open>date_range_behind_utc\<close>); it
  is lost where \<^verbatim>\<open>getDateWithTimeString\<close> takes one from the day without borrowing from the
  month, the defect of C8.
\<close>

theorem date_range_east_of_utc:
  "map sol (photosOf curiosityMonthEnd) = [0, 1, 2]
   \<and> map earth_date (photosOf curiosityMonthEnd) = [''2012-08-30'', ''2012-08-31'', ''2012-09-01'']
   \<and> isCalendarDate ''2012-08-30'' \<and> isCalendarDate ''2012-08-31''
   \<and> isCalendarDate ''2012-09-01''
   \<and> earthDateLessEq ''2012-08-30'' ''2012-08-31''
   \<and> earthDateLessEq ''2012-08-31'' ''2012-09-01''
   \<and> \<not> isl (roverInfo (- 2) 0 curiosityMonthEnd)
   \<and> minDate (projr (roverInfo (- 2) 0 curiosityMonthEnd)) = Some 1346270400000
   \<and> startDate (projr (roverInfo (- 2) 0 curiosityMonthEnd)) = None
   \<and> maxDate (projr (roverInfo (- 2) 0 curiosityMonthEnd)) = None
   \<and> completedDate (projr (roverInfo (- 2) 0 curiosityMonthEnd)) = None
   \<and> \<not> dateLessEq (minDate (projr (roverInfo (- 2) 0 curiosityMonthEnd)))
         (startDate (projr (roverInfo (- 2) 0 curiosityMonthEnd)))"
proof -
  have ne: "photosOf curiosityMonthEnd \<noteq> []"
    by (simp add: curiosityMonthEnd_def exampleManifest_def)
  have range: "sol (last (photosOf curiosityMonthEnd)) < 2 ^ 32"
    by (simp add: curiosityMonthEnd_def exampleManifest_def)
  have entries: "map sol (photosOf curiosityMonthEnd) = [0, 1, 2]"
    "map earth_date (photosOf curiosityMonthEnd) = [''2012-08-30'', ''2012-08-31'', ''2012-09-01'']"
    by (simp_all add: curiosityMonthEnd_def exampleManifest_def)
  have first: "apodStringToDate (- 2) 0 ''2012-09-01'' = None"
    using calendar_month_end by (intro first_of_month_ahead_of_utc) simp_all
  have fields: "earth_date (hd (photosOf curiosityMonthEnd)) = ''2012-08-30''"
    "earth_date (last (photosOf curiosityMonthEnd)) = ''2012-09-01''"
    "earth_date (photosOf curiosityMonthEnd !
       nat (max (int (length (photosOf curiosityMonthEnd)) + cutOff (nameOf curiosityMonthEnd)) 0))
     = ''2012-09-01''"
    by (simp_all add: curiosityMonthEnd_def exampleManifest_def cutOff_def)
  show ?thesis
    using entries calendar_month_end ascending_month_end
    by (simp add: roverInfo_Inr [OF ne range] fields first date_east_2012_08_30 dateLessEq_def)
qed

section \<open>Disabled dates and the dates of the manifest\<close>

text \<open>
  Against C4: a manifest that starts at sol 1, as the manifest of \<^verbatim>\<open>Opportunity\<close> does.
  Sol 0 is missing and its date is \<open>minDate\<close> itself, the earth date of the first entry.
  And a manifest with sols 0 and 2 on two days in a row: the date of the missing sol 1 is
  the earth date of the entry of sol 2.
\<close>

theorem disabledDates_contain_minDate:
  "\<not> isl (roverInfo 5 0 opportunityFromSolOne)
   \<and> minDate (projr (roverInfo 5 0 opportunityFromSolOne)) = Some 1075111200000
   \<and> disabledDates (projr (roverInfo 5 0 opportunityFromSolOne)) = [Some 1075111200000]
   \<and> \<not> isl (roverInfo 5 0 curiosityNextDay)
   \<and> disabledDates (projr (roverInfo 5 0 curiosityNextDay)) = [Some 1344333600000]
   \<and> apodStringToDate 5 0 (earth_date (last (photosOf curiosityNextDay)))
       = Some 1344333600000"
proof -
  have ne: "photosOf opportunityFromSolOne \<noteq> []"
    by (simp add: opportunityFromSolOne_def exampleManifest_def)
  have range: "sol (last (photosOf opportunityFromSolOne)) < 2 ^ 32"
    by (simp add: opportunityFromSolOne_def exampleManifest_def)
  have ms: "filter (\<lambda>s. s \<notin> sol ` set (photosOf opportunityFromSolOne))
      [0..<sol (last (photosOf opportunityFromSolOne))] = [0]"
    by (simp add: opportunityFromSolOne_def exampleManifest_def upt_rec numeral_2_eq_2)
  have hd: "earth_date (hd (photosOf opportunityFromSolOne)) = ''2004-01-26''"
    by (simp add: opportunityFromSolOne_def exampleManifest_def)
  have one: "\<not> isl (roverInfo 5 0 opportunityFromSolOne)
      \<and> minDate (projr (roverInfo 5 0 opportunityFromSolOne)) = Some 1075111200000
      \<and> disabledDates (projr (roverInfo 5 0 opportunityFromSolOne)) = [Some 1075111200000]"
    by (simp add: roverInfo_Inr [OF ne range] ms hd date_2004_01_26
        solToDate_Some [OF date_2004_01_26] TimeClip_def solDays_def)
  have ne': "photosOf curiosityNextDay \<noteq> []"
    by (simp add: curiosityNextDay_def exampleManifest_def)
  have range': "sol (last (photosOf curiosityNextDay)) < 2 ^ 32"
    by (simp add: curiosityNextDay_def exampleManifest_def)
  have ms': "filter (\<lambda>s. s \<notin> sol ` set (photosOf curiosityNextDay))
      [0..<sol (last (photosOf curiosityNextDay))] = [1]"
    by (simp add: curiosityNextDay_def exampleManifest_def upt_rec numeral_2_eq_2)
  have hd': "earth_date (hd (photosOf curiosityNextDay)) = ''2012-08-06''"
    and last': "earth_date (last (photosOf curiosityNextDay)) = ''2012-08-07''"
    by (simp_all add: curiosityNextDay_def exampleManifest_def)
  have two: "\<not> isl (roverInfo 5 0 curiosityNextDay)
      \<and> disabledDates (projr (roverInfo 5 0 curiosityNextDay)) = [Some 1344333600000]"
    by (simp add: roverInfo_Inr [OF ne' range'] ms' hd'
        solToDate_Some [OF date_2012_08_06] TimeClip_def solDays_def msPerDay_def)
  show ?thesis
    using one two by (simp add: last' date_2012_08_07)
qed

text \<open>
  C4 as amended: when sol 0 is recorded and \<open>minDate\<close> is a valid date, \<open>disabledDates\<close>
  does not contain \<open>minDate\<close>, and it contains the date of no entry whose earth date is
  the one that the code computes for the entry's own sol.
\<close>

theorem disabledDates_avoid_mapped_dates:
  assumes ne: "photosOf m \<noteq> []"
    and range: "sol (last (photosOf m)) < 2 ^ 32"
    and zero: "0 \<in> sol ` set (photosOf m)"
    and base: "apodStringToDate tz now (earth_date (hd (photosOf m))) = Some t"
  shows "\<exists>info. roverInfo tz now m = Inr info
      \<and> minDate info \<notin> set (disabledDates info)
      \<and> (\<forall>p \<in> set (photosOf m).
            apodStringToDate tz now (earth_date p)
              = Some (t + (int (sol p) + int (sol p div 37) + int (sol p div 1493)) * msPerDay)
            \<longrightarrow> apodStringToDate tz now (earth_date p) \<notin> set (disabledDates info))"
proof -
  let ?ps = "photosOf m"
  let ?ms = "filter (\<lambda>s. s \<notin> sol ` set ?ps) [0..<sol (last ?ps)]"
  let ?dd = "map (solToDate tz now (earth_date (hd ?ps))) ?ms"
  have dd: "d \<in> set ?dd \<Longrightarrow> \<exists>s. s \<notin> sol ` set ?ps \<and> d = TimeClip (t + solDays s * msPerDay)" for d
    by (auto simp: solToDate_Some [OF base])
  have min: "Some t \<notin> set ?dd"
  proof
    assume "Some t \<in> set ?dd"
    then obtain s where s: "s \<notin> sol ` set ?ps" and eq: "Some t = TimeClip (t + solDays s * msPerDay)"
      using dd by blast
    from s zero have "0 < s"
      by (cases s) auto
    then have "solDays 0 < solDays s"
      by (rule solDays_strict_mono)
    then have "0 < solDays s * msPerDay"
      by (simp add: solDays_def msPerDay_def)
    moreover from eq have "t = t + solDays s * msPerDay"
      by (simp add: TimeClip_def split: if_splits)
    ultimately show False
      by simp
  qed
  have mapped: "Some (t + solDays (sol p) * msPerDay) \<notin> set ?dd" if p: "p \<in> set ?ps" for p
  proof
    assume "Some (t + solDays (sol p) * msPerDay) \<in> set ?dd"
    then obtain s where s: "s \<notin> sol ` set ?ps"
      and eq: "Some (t + solDays (sol p) * msPerDay) = TimeClip (t + solDays s * msPerDay)"
      using dd by blast
    from eq have "solDays (sol p) = solDays s"
      by (simp add: TimeClip_def msPerDay_def split: if_splits)
    moreover have "s \<noteq> sol p"
      using s p by auto
    ultimately show False
      using solDays_strict_mono [of s "sol p"] solDays_strict_mono [of "sol p" s]
      by (cases "s < sol p") auto
  qed
  show ?thesis
    using min mapped
    by (auto simp: roverInfo_Inr [OF ne range] base solDays_def)
qed

text \<open>Witness of C4 as amended: sols 0, 1 and 3 on three days that follow the code's dates.\<close>

theorem disabledDates_avoid_mapped_dates_witness:
  "photosOf curiosityGap \<noteq> [] \<and> sol (last (photosOf curiosityGap)) = 3
   \<and> sol ` set (photosOf curiosityGap) = {0, 1, 3}
   \<and> apodStringToDate 5 0 (earth_date (hd (photosOf curiosityGap))) = Some 1344247200000
   \<and> (\<exists>info. roverInfo 5 0 curiosityGap = Inr info
         \<and> minDate info \<notin> set (disabledDates info)
         \<and> apodStringToDate 5 0 ''2012-08-07'' \<notin> set (disabledDates info))"
proof -
  have ne: "photosOf curiosityGap \<noteq> []"
    by (simp add: curiosityGap_def exampleManifest_def)
  have last: "sol (last (photosOf curiosityGap)) = 3"
    by (simp add: curiosityGap_def exampleManifest_def)
  have range: "sol (last (photosOf curiosityGap)) < 2 ^ 32"
    by (simp add: last)
  have sols: "sol ` set (photosOf curiosityGap) = {0, 1, 3}"
    by (auto simp: curiosityGap_def exampleManifest_def)
  have zero: "0 \<in> sol ` set (photosOf curiosityGap)"
    by (simp add: sols)
  have base: "apodStringToDate 5 0 (earth_date (hd (photosOf curiosityGap))) = Some 1344247200000"
    by (simp add: curiosityGap_def exampleManifest_def date_2012_08_06)
  have p: "\<lparr>sol = 1, earth_date = ''2012-08-07''\<rparr> \<in> set (photosOf curiosityGap)"
    by (simp add: curiosityGap_def exampleManifest_def)
  from disabledDates_avoid_mapped_dates [OF ne range zero base]
  obtain info where info: "roverInfo 5 0 curiosityGap = Inr info"
    and min: "minDate info \<notin> set (disabledDates info)"
    and all: "\<forall>p \<in> set (photosOf curiosityGap).
        apodStringToDate 5 0 (earth_date p)
          = Some (1344247200000 + (int (sol p) + int (sol p div 37) + int (sol p div 1493)) * msPerDay)
        \<longrightarrow> apodStringToDate 5 0 (earth_date p) \<notin> set (disabledDates info)"
    by blast
  from all p have "apodStringToDate 5 0 ''2012-08-07'' \<notin> set (disabledDates info)"
    by (auto simp: date_2012_08_07 msPerDay_def)
  with info min ne last sols base show ?thesis
    by blast
qed

section \<open>The time zone\<close>

text \<open>
  C8, at an input where the code breaks it: two hours ahead of UTC the offset is \<open>- 2\<close>,
  \<^verbatim>\<open>getDateWithTimeString\<close> takes one from the day and \<^verbatim>\<open>new Date\<close> reads the result as
  local time, so the date that comes back for \<^verbatim>\<open>2020-01-15\<close> is the day before; for the
  first of a month the day becomes \<^verbatim>\<open>00\<close> and the date is an Invalid Date. The same
  happens for every date and every negative offset (\<open>previous_day_ahead_of_utc\<close>,
  \<open>first_of_month_ahead_of_utc\<close>); at or behind UTC the date does come back
  (\<open>roundtrip_behind_utc\<close>).
\<close>

theorem normalization_east_of_utc:
  "dateToStringConverter (- 2) (apodStringToDate (- 2) 0 ''2020-01-15'') = ''2020-01-14''
   \<and> dateToStringConverter (- 2) (apodStringToDate (- 2) 0 ''2020-03-01'') = ''NaN-NaN-NaN''"
  by code_simp

section \<open>Determinism and effects\<close>




end
